theory Spec2Isabelle
  imports Complex_Main "HOL-Library.AList"
begin

section \<open>Errors and effectful computations\<close>

text \<open>
  The runner of \<^verbatim>\<open>jiant/proj/main/runner.py\<close> is Python: every dictionary lookup,
  attribute access and division can raise. An exception is a value of \<open>py_error\<close>, and a
  method that mutates its object is a function from the state before the call to the
  outcome of the call together with the state after it.
\<close>

datatype py_error =
    KeyError
  | AttributeError
  | ZeroDivisionError
  | RuntimeError
  | IndexError
  | UnboundLocalError
  | TypeError
  | CollaboratorError

type_synonym ('s, 'a) prog = "'s \<Rightarrow> (py_error + 'a) \<times> 's"

definition ret :: "'a \<Rightarrow> ('s, 'a) prog" where
  "ret v = (\<lambda>s. (Inr v, s))"

definition raise :: "py_error \<Rightarrow> ('s, 'a) prog" where
  "raise e = (\<lambda>s. (Inl e, s))"

definition bnd :: "('s, 'a) prog \<Rightarrow> ('a \<Rightarrow> ('s, 'b) prog) \<Rightarrow> ('s, 'b) prog" where
  "bnd m f = (\<lambda>s. case m s of (Inl e, s') \<Rightarrow> (Inl e, s') | (Inr v, s') \<Rightarrow> f v s')"

section \<open>TrainState\<close>

text \<open>
  \<^verbatim>\<open>
  @dataclass
  class TrainState(ExtendedDataClassMixin):
      global_steps: int
      task_steps: Dict[str, int]
  \<close>
  A Python dictionary keeps its keys in insertion order and keeps one entry per key;
  \<open>AList.update\<close> on an association list does the same (an existing key is
  overwritten in place, a new one is appended).
\<close>

record TrainState =
  global_steps :: int
  task_steps :: "(string \<times> int) list"

text \<open>
  \<^verbatim>\<open>
  def from_task_name_list(cls, task_name_list):
      return cls(global_steps=0, task_steps={task_name: 0 for task_name in task_name_list})
  \<close>
\<close>

definition from_task_name_list :: "string list \<Rightarrow> TrainState" where
  "from_task_name_list task_name_list =
     \<lparr>global_steps = 0,
      task_steps = fold (\<lambda>task_name d. AList.update task_name 0 d) task_name_list []\<rparr>"

text \<open>
  \<^verbatim>\<open>
  def step(self, task_name):
      self.task_steps[task_name] += 1
      self.global_steps += 1
  \<close>
  The augmented assignment reads \<open>task_steps[task_name]\<close> first, so a missing key
  raises \<open>KeyError\<close> before anything is written.
\<close>

definition step :: "string \<Rightarrow> (TrainState, unit) prog" where
  "step task_name = (\<lambda>ts.
     case map_of (task_steps ts) task_name of
       None \<Rightarrow> (Inl KeyError, ts)
     | Some n \<Rightarrow>
         (Inr (),
          ts\<lparr>task_steps := AList.update task_name (n + 1) (task_steps ts),
             global_steps := global_steps ts + 1\<rparr>))"

text \<open>A finite sequence of \<open>step\<close> calls; the first exception ends it.\<close>

fun steps :: "string list \<Rightarrow> (TrainState, unit) prog" where
  "steps [] = ret ()"
| "steps (task_name # rest) = bnd (step task_name) (\<lambda>_. steps rest)"

text \<open>\<open>sum(task_steps.values())\<close>\<close>

definition sum_task_steps :: "TrainState \<Rightarrow> int" where
  "sum_task_steps ts = sum_list (map snd (task_steps ts))"

definition task_names :: "TrainState \<Rightarrow> string set" where
  "task_names ts = fst ` set (task_steps ts)"

definition counters_consistent :: "TrainState \<Rightarrow> bool" where
  "counters_consistent ts \<longleftrightarrow>
     distinct (map fst (task_steps ts)) \<and> global_steps ts = sum_task_steps ts"

section \<open>Collaborators and the trace of their calls\<close>

text \<open>
  The runner drives objects it does not define: the task sampler, the data cursors, the
  model's forward pass (\<open>wrap_jiant_forward\<close>), \<open>complex_backpropagate\<close>, the
  optimizer and its scheduler, the log writer, the evaluation scheme. Their methods are
  oracles: what a call returns (or raises) may depend on every call made before it, so
  an oracle takes the trace of earlier calls. The runner's state is that trace together
  with the \<open>TrainState\<close> object it was handed. Batches, tasks, logits, metrics and
  other objects the runner only passes on are opaque (\<open>pyobj\<close>); a loss is a real
  number (the floating-point value, idealised).
\<close>

datatype pyobj = Obj nat

datatype model_id = Student | Teacher

text \<open>
  A tensor is its shape and its elements in row-major order.
\<close>

record tensor =
  shape :: "nat list"
  elems :: "real list"

record model_output =
  loss :: real
  logits :: pyobj
  other0 :: "tensor list"

record log_entry =
  entry_task :: string
  entry_task_step :: int
  entry_global_step :: int
  entry_loss_val :: real

datatype event =
    Model_train
  | Model_eval model_id
  | Sampler_pop
  | Dataloader_pop string
  | Batch_to pyobj
  | Forward model_id pyobj pyobj bool bool
  | Backpropagate real int "real option"
  | Scheduler_step
  | Scheduler_step_None
  | Optimizer_step
  | Optimizer_zero_grad
  | Loss_backward real
  | Meta_zero_grad
  | Meta_backward
  | Meta_step
  | Log_write string log_entry
  | Get_eval_dataloader pyobj pyobj int "int option"
  | Labels_get_all pyobj
  | Get_evaluation_scheme pyobj
  | Get_accumulator pyobj
  | Accumulator_update pyobj pyobj real pyobj pyobj
  | Is_data_parallel
  | Compute_metrics pyobj pyobj pyobj "pyobj list"
  | Get_preds pyobj pyobj pyobj

text \<open>
  \<open>Forward m batch task compute_loss no_grad\<close> is a call of \<open>wrap_jiant_forward\<close> on
  model \<open>m\<close>; \<open>no_grad\<close> says that the call sits inside \<open>with torch.no_grad()\<close>.
  \<open>Scheduler_step\<close> is \<open>optimizer_scheduler.step()\<close>, \<open>Scheduler_step_None\<close> is
  \<open>optimizer_scheduler.step(None)\<close>, \<open>Optimizer_step\<close> is
  \<open>optimizer_scheduler.optimizer.step(None)\<close>; the \<open>Meta_\<close> events are the calls
  on \<open>meta_optimizer\<close> and \<open>optimizer.meta_backward()\<close>.
  \<open>Backpropagate loss n r\<close> is a call of \<open>complex_backpropagate\<close> with the value
  \<open>loss.item()\<close> of what it returned (\<open>None\<close> when it raised).
\<close>

record env =
  proc_result :: "event list \<Rightarrow> event \<Rightarrow> py_error option"
  obj_result :: "event list \<Rightarrow> event \<Rightarrow> py_error + pyobj"
  sampler_result :: "event list \<Rightarrow> py_error + string \<times> pyobj"
  pop_result :: "event list \<Rightarrow> string \<Rightarrow> py_error + pyobj \<times> pyobj"
  forward_result :: "event list \<Rightarrow> event \<Rightarrow> py_error + model_output"
  backprop_result :: "event list \<Rightarrow> real \<Rightarrow> int \<Rightarrow> py_error + real"
  dataloader_result :: "event list \<Rightarrow> event \<Rightarrow> py_error + (pyobj \<times> pyobj) list"
  labels_result :: "event list \<Rightarrow> event \<Rightarrow> py_error + pyobj list"

record runner_state =
  trace :: "event list"
  train_state :: TrainState

text \<open>A call of a method that returns nothing.\<close>

definition call_proc :: "env \<Rightarrow> event \<Rightarrow> ('a runner_state_scheme, unit) prog" where
  "call_proc env ev = (\<lambda>s.
     (case proc_result env (trace s) ev of None \<Rightarrow> Inr () | Some e \<Rightarrow> Inl e,
      s\<lparr>trace := trace s @ [ev]\<rparr>))"

text \<open>A call of a method that returns a value, given by the oracle \<open>f\<close>.\<close>

definition call_fun ::
  "event \<Rightarrow> (event list \<Rightarrow> py_error + 'v) \<Rightarrow> ('a runner_state_scheme, 'v) prog" where
  "call_fun ev f = (\<lambda>s. (f (trace s), s\<lparr>trace := trace s @ [ev]\<rparr>))"

definition call_backpropagate ::
  "env \<Rightarrow> real \<Rightarrow> int \<Rightarrow> ('a runner_state_scheme, real) prog" where
  "call_backpropagate env l n = (\<lambda>s.
     let r = backprop_result env (trace s) l n
     in (r, s\<lparr>trace := trace s @
                 [Backpropagate l n (case r of Inl e \<Rightarrow> None | Inr v \<Rightarrow> Some v)]\<rparr>))"

text \<open>\<open>d[k]\<close> on a dictionary.\<close>

definition getitem :: "('k \<times> 'v) list \<Rightarrow> 'k \<Rightarrow> ('s, 'v) prog" where
  "getitem d k = (case map_of d k of None \<Rightarrow> raise KeyError | Some v \<Rightarrow> ret v)"

text \<open>A method of the \<open>TrainState\<close> object held in the runner's state.\<close>

definition on_train_state ::
  "(TrainState, 'v) prog \<Rightarrow> ('a runner_state_scheme, 'v) prog" where
  "on_train_state m = (\<lambda>s.
     case m (train_state s) of (r, ts') \<Rightarrow> (r, s\<lparr>train_state := ts'\<rparr>))"

section \<open>JiantRunner\<close>

record task_config =
  gradient_accumulation_steps :: int
  eval_batch_size :: int
  eval_subset_num :: int

record JiantTaskContainer =
  task_dict :: "(string \<times> pyobj) list"
  task_cache_dict :: "(string \<times> (string \<times> pyobj) list) list"
  task_specific_configs :: "(string \<times> task_config) list"
  test_task_list :: "string list"

record JiantRunner =
  jiant_task_container :: JiantTaskContainer
  rparams_local_rank :: int

text \<open>
  The body of the accumulation loop of \<open>run_train_step\<close>, for one micro-batch. It
  returns the batch on the device and \<open>loss.item()\<close>.
  \<^verbatim>\<open>
  batch, batch_metadata = train_dataloader_dict[task_name].pop()
  batch = batch.to(self.device)
  model_output = wrap_jiant_forward(
      jiant_model=self.jiant_model, batch=batch, task=task, compute_loss=True,
  )
  loss = self.complex_backpropagate(
      loss=model_output.loss,
      gradient_accumulation_steps=task_specific_config.gradient_accumulation_steps,
  )
  \<close>
  \<open>train_dataloader_dict\<close> is given by its keys: the cursor of a task is identified by
  the task's name.
\<close>

definition microbatch ::
  "env \<Rightarrow> string list \<Rightarrow> string \<Rightarrow> pyobj \<Rightarrow> int
   \<Rightarrow> ('a runner_state_scheme, pyobj \<times> real) prog" where
  "microbatch env train_dataloader_dict task_name task n =
     bnd (if task_name \<in> set train_dataloader_dict
          then call_fun (Dataloader_pop task_name) (\<lambda>tr. pop_result env tr task_name)
          else raise KeyError) (\<lambda>(batch, batch_metadata).
     bnd (call_fun (Batch_to batch) (\<lambda>tr. obj_result env tr (Batch_to batch))) (\<lambda>batch.
     bnd (call_fun (Forward Student batch task True False)
            (\<lambda>tr. forward_result env tr (Forward Student batch task True False)))
       (\<lambda>model_output.
     bnd (call_backpropagate env (loss model_output) n) (\<lambda>l.
     ret (batch, l)))))"

text \<open>
  The loop \<open>for i in range(gradient_accumulation_steps)\<close> of
  \<open>JiantRunner.run_train_step\<close> with \<open>loss_val += loss.item()\<close>; \<open>k\<close> is the
  number of iterations still to run.
\<close>

fun accumulate ::
  "env \<Rightarrow> string list \<Rightarrow> string \<Rightarrow> pyobj \<Rightarrow> int \<Rightarrow> nat \<Rightarrow> real
   \<Rightarrow> ('a runner_state_scheme, real) prog" where
  "accumulate env train_dataloader_dict task_name task n 0 loss_val = ret loss_val"
| "accumulate env train_dataloader_dict task_name task n (Suc k) loss_val =
     bnd (microbatch env train_dataloader_dict task_name task n) (\<lambda>(batch, l).
     accumulate env train_dataloader_dict task_name task n k (loss_val + l))"

text \<open>
  The log record of \<open>run_train_step\<close>. The dictionary is built before
  \<open>write_entry\<close> is called, so the division by \<open>gradient_accumulation_steps\<close> can
  raise first.
  \<^verbatim>\<open>
  self.log_writer.write_entry(
      "loss_train",
      {
          "task": task_name,
          "task_step": train_state.task_steps[task_name],
          "global_step": train_state.global_steps,
          "loss_val": loss_val / task_specific_config.gradient_accumulation_steps,
      },
  )
  \<close>
\<close>

definition write_loss_train ::
  "env \<Rightarrow> string \<Rightarrow> real \<Rightarrow> int \<Rightarrow> ('a runner_state_scheme, unit) prog" where
  "write_loss_train env task_name loss_val n = (\<lambda>s.
     case map_of (task_steps (train_state s)) task_name of
       None \<Rightarrow> (Inl KeyError, s)
     | Some task_step \<Rightarrow>
         if n = 0 then (Inl ZeroDivisionError, s)
         else call_proc env
                (Log_write ''loss_train''
                   \<lparr>entry_task = task_name,
                    entry_task_step = task_step,
                    entry_global_step = global_steps (train_state s),
                    entry_loss_val = loss_val / real_of_int n\<rparr>) s)"

text \<open>
  \<^verbatim>\<open>
  def run_train_step(self, train_dataloader_dict: dict, train_state: TrainState):
      self.jiant_model.train()
      task_name, task = self.jiant_task_container.task_sampler.pop()
      task_specific_config = self.jiant_task_container.task_specific_configs[task_name]

      loss_val = 0
      for i in range(task_specific_config.gradient_accumulation_steps):
          ...
      self.optimizer_scheduler.step()
      self.optimizer_scheduler.optimizer.zero_grad()

      train_state.step(task_name=task_name)
      self.log_writer.write_entry(...)
  \<close>
  \<open>range(n)\<close> runs \<open>nat n\<close> times (never for \<open>n \<le> 0\<close>).
\<close>

definition JiantRunner_run_train_step ::
  "env \<Rightarrow> 'r JiantRunner_scheme \<Rightarrow> string list \<Rightarrow> ('a runner_state_scheme, unit) prog" where
  "JiantRunner_run_train_step env self train_dataloader_dict =
     bnd (call_proc env Model_train) (\<lambda>_.
     bnd (call_fun Sampler_pop (sampler_result env)) (\<lambda>(task_name, task).
     bnd (getitem (task_specific_configs (jiant_task_container self)) task_name)
       (\<lambda>task_specific_config.
     bnd (accumulate env train_dataloader_dict task_name task
            (gradient_accumulation_steps task_specific_config)
            (nat (gradient_accumulation_steps task_specific_config)) 0) (\<lambda>loss_val.
     bnd (call_proc env Scheduler_step) (\<lambda>_.
     bnd (call_proc env Optimizer_zero_grad) (\<lambda>_.
     bnd (on_train_state (step task_name)) (\<lambda>_.
     write_loss_train env task_name loss_val
       (gradient_accumulation_steps task_specific_config))))))))"

section \<open>Evaluation\<close>

text \<open>
  The dictionary \<open>run_val\<close> and \<open>run_test\<close> return; a key that is absent from the
  dictionary is \<open>None\<close> here.
\<close>

record eval_output =
  out_accumulator :: pyobj
  out_loss :: "real option"
  out_metrics :: "pyobj option"
  out_preds :: "pyobj option"

text \<open>
  The loop of \<open>run_val\<close> over the batches of the dataloader, which is given as the
  list of pairs \<open>(batch, batch_metadata)\<close> it yields.
  \<^verbatim>\<open>
  batch = batch.to(device)
  with torch.no_grad():
      model_output = wrap_jiant_forward(
          jiant_model=jiant_model, batch=batch, task=task, compute_loss=True,
      )
  batch_logits = model_output.logits.detach().cpu().numpy()
  batch_loss = model_output.loss.mean().item()
  total_eval_loss += batch_loss
  eval_accumulator.update(
      batch_logits=batch_logits, batch_loss=batch_loss,
      batch=batch, batch_metadata=batch_metadata,
  )
  nb_eval_examples += len(batch)
  nb_eval_steps += 1
  \<close>
\<close>

fun val_loop ::
  "env \<Rightarrow> pyobj \<Rightarrow> pyobj \<Rightarrow> (pyobj \<times> pyobj) list \<Rightarrow> real \<Rightarrow> nat
   \<Rightarrow> ('a runner_state_scheme, real \<times> nat) prog" where
  "val_loop env task eval_accumulator [] total_eval_loss nb_eval_steps =
     ret (total_eval_loss, nb_eval_steps)"
| "val_loop env task eval_accumulator ((batch, batch_metadata) # rest)
     total_eval_loss nb_eval_steps =
     bnd (call_fun (Batch_to batch) (\<lambda>tr. obj_result env tr (Batch_to batch))) (\<lambda>batch.
     bnd (call_fun (Forward Student batch task True True)
            (\<lambda>tr. forward_result env tr (Forward Student batch task True True)))
       (\<lambda>model_output.
     bnd (call_proc env
            (Accumulator_update eval_accumulator (logits model_output) (loss model_output)
               batch batch_metadata)) (\<lambda>_.
     val_loop env task eval_accumulator rest
       (total_eval_loss + loss model_output) (Suc nb_eval_steps))))"

text \<open>
  \<^verbatim>\<open>
  def run_val(val_dataloader, val_labels, jiant_model, task, device, local_rank,
              return_preds=False, verbose=True):
      if not local_rank == -1:
          return
      jiant_model.eval()
      total_eval_loss = 0
      nb_eval_steps, nb_eval_examples = 0, 0
      evaluation_scheme = evaluate.get_evaluation_scheme_for_task(task=task)
      eval_accumulator = evaluation_scheme.get_accumulator()
      for step, (batch, batch_metadata) in enumerate(...):
          ...
      eval_loss = total_eval_loss / nb_eval_steps
      tokenizer = (
          jiant_model.tokenizer
          if not torch_utils.is_data_parallel(jiant_model)
          else jiant_model.module.tokenizer
      )
      output = {
          "accumulator": eval_accumulator,
          "loss": eval_loss,
          "metrics": evaluation_scheme.compute_metrics_from_accumulator(
              task=task, accumulator=eval_accumulator, labels=val_labels, tokenizer=tokenizer,
          ),
      }
      if return_preds:
          output["preds"] = evaluation_scheme.get_preds_from_accumulator(
              task=task, accumulator=eval_accumulator,
          )
      return output
  \<close>
\<close>

definition run_val ::
  "env \<Rightarrow> (pyobj \<times> pyobj) list \<Rightarrow> pyobj list \<Rightarrow> pyobj \<Rightarrow> int \<Rightarrow> bool
   \<Rightarrow> ('a runner_state_scheme, eval_output option) prog" where
  "run_val env val_dataloader val_labels task local_rank return_preds =
     (if \<not> local_rank = - 1 then ret None
      else
        bnd (call_proc env (Model_eval Student)) (\<lambda>_.
        bnd (call_fun (Get_evaluation_scheme task)
               (\<lambda>tr. obj_result env tr (Get_evaluation_scheme task))) (\<lambda>evaluation_scheme.
        bnd (call_fun (Get_accumulator evaluation_scheme)
               (\<lambda>tr. obj_result env tr (Get_accumulator evaluation_scheme)))
          (\<lambda>eval_accumulator.
        bnd (val_loop env task eval_accumulator val_dataloader 0 0)
          (\<lambda>(total_eval_loss, nb_eval_steps).
        if nb_eval_steps = 0 then raise ZeroDivisionError
        else
          bnd (call_proc env Is_data_parallel) (\<lambda>_.
          bnd (call_fun (Compute_metrics evaluation_scheme task eval_accumulator val_labels)
                 (\<lambda>tr. obj_result env tr
                    (Compute_metrics evaluation_scheme task eval_accumulator val_labels)))
            (\<lambda>metrics.
          if return_preds
          then bnd (call_fun (Get_preds evaluation_scheme task eval_accumulator)
                      (\<lambda>tr. obj_result env tr
                         (Get_preds evaluation_scheme task eval_accumulator))) (\<lambda>preds.
               ret (Some \<lparr>out_accumulator = eval_accumulator,
                           out_loss = Some (total_eval_loss / real nb_eval_steps),
                           out_metrics = Some metrics, out_preds = Some preds\<rparr>))
          else ret (Some \<lparr>out_accumulator = eval_accumulator,
                           out_loss = Some (total_eval_loss / real nb_eval_steps),
                           out_metrics = Some metrics, out_preds = None\<rparr>))))))))"

text \<open>
  The loop of \<open>run_test\<close>:
  \<^verbatim>\<open>
  batch = batch.to(device)
  with torch.no_grad():
      model_output = wrap_jiant_forward(
          jiant_model=jiant_model, batch=batch, task=task, compute_loss=False,
      )
  batch_logits = model_output.logits.detach().cpu().numpy()
  eval_accumulator.update(
      batch_logits=batch_logits, batch_loss=0, batch=batch, batch_metadata=batch_metadata,
  )
  \<close>
\<close>

fun test_loop ::
  "env \<Rightarrow> pyobj \<Rightarrow> pyobj \<Rightarrow> (pyobj \<times> pyobj) list \<Rightarrow> ('a runner_state_scheme, unit) prog" where
  "test_loop env task eval_accumulator [] = ret ()"
| "test_loop env task eval_accumulator ((batch, batch_metadata) # rest) =
     bnd (call_fun (Batch_to batch) (\<lambda>tr. obj_result env tr (Batch_to batch))) (\<lambda>batch.
     bnd (call_fun (Forward Student batch task False True)
            (\<lambda>tr. forward_result env tr (Forward Student batch task False True)))
       (\<lambda>model_output.
     bnd (call_proc env
            (Accumulator_update eval_accumulator (logits model_output) 0
               batch batch_metadata)) (\<lambda>_.
     test_loop env task eval_accumulator rest)))"

text \<open>
  \<^verbatim>\<open>
  def run_test(test_dataloader, jiant_model, task, device, local_rank,
               verbose=True, return_preds=True):
      if not local_rank == -1:
          return
      jiant_model.eval()
      evaluation_scheme = evaluate.get_evaluation_scheme_for_task(task=task)
      eval_accumulator = evaluation_scheme.get_accumulator()
      for step, (batch, batch_metadata) in enumerate(...):
          ...
      output = {
          "accumulator": eval_accumulator,
      }
      if return_preds:
          output["preds"] = evaluation_scheme.get_preds_from_accumulator(
              task=task, accumulator=eval_accumulator,
          )
      return output
  \<close>
\<close>

definition run_test ::
  "env \<Rightarrow> (pyobj \<times> pyobj) list \<Rightarrow> pyobj \<Rightarrow> int \<Rightarrow> bool
   \<Rightarrow> ('a runner_state_scheme, eval_output option) prog" where
  "run_test env test_dataloader task local_rank return_preds =
     (if \<not> local_rank = - 1 then ret None
      else
        bnd (call_proc env (Model_eval Student)) (\<lambda>_.
        bnd (call_fun (Get_evaluation_scheme task)
               (\<lambda>tr. obj_result env tr (Get_evaluation_scheme task))) (\<lambda>evaluation_scheme.
        bnd (call_fun (Get_accumulator evaluation_scheme)
               (\<lambda>tr. obj_result env tr (Get_accumulator evaluation_scheme)))
          (\<lambda>eval_accumulator.
        bnd (test_loop env task eval_accumulator test_dataloader) (\<lambda>_.
        if return_preds
        then bnd (call_fun (Get_preds evaluation_scheme task eval_accumulator)
                    (\<lambda>tr. obj_result env tr
                       (Get_preds evaluation_scheme task eval_accumulator))) (\<lambda>preds.
             ret (Some \<lparr>out_accumulator = eval_accumulator, out_loss = None,
                         out_metrics = None, out_preds = Some preds\<rparr>))
        else ret (Some \<lparr>out_accumulator = eval_accumulator, out_loss = None,
                         out_metrics = None, out_preds = None\<rparr>))))))"

text \<open>
  \<^verbatim>\<open>
  def _get_eval_dataloader_dict(self, phase, task_name_list, use_subset=False):
      val_dataloader_dict = {}
      for task_name in task_name_list:
          task = self.jiant_task_container.task_dict[task_name]
          eval_cache = self.jiant_task_container.task_cache_dict[task_name][phase]
          task_specific_config = self.jiant_task_container.task_specific_configs[task_name]
          val_dataloader_dict[task_name] = get_eval_dataloader_from_cache(
              eval_cache=eval_cache,
              task=task,
              eval_batch_size=task_specific_config.eval_batch_size,
              subset_num=task_specific_config.eval_subset_num if use_subset else None,
          )
      return val_dataloader_dict
  \<close>
\<close>

fun eval_dataloader_loop ::
  "env \<Rightarrow> JiantTaskContainer \<Rightarrow> string \<Rightarrow> bool \<Rightarrow> string list
   \<Rightarrow> (string \<times> (pyobj \<times> pyobj) list) list
   \<Rightarrow> ('a runner_state_scheme, (string \<times> (pyobj \<times> pyobj) list) list) prog" where
  "eval_dataloader_loop env c phase use_subset [] val_dataloader_dict = ret val_dataloader_dict"
| "eval_dataloader_loop env c phase use_subset (task_name # rest) val_dataloader_dict =
     bnd (getitem (task_dict c) task_name) (\<lambda>task.
     bnd (getitem (task_cache_dict c) task_name) (\<lambda>caches.
     bnd (getitem caches phase) (\<lambda>eval_cache.
     bnd (getitem (task_specific_configs c) task_name) (\<lambda>task_specific_config.
     bnd (call_fun
            (Get_eval_dataloader eval_cache task (eval_batch_size task_specific_config)
               (if use_subset then Some (eval_subset_num task_specific_config) else None))
            (\<lambda>tr. dataloader_result env tr
               (Get_eval_dataloader eval_cache task (eval_batch_size task_specific_config)
                  (if use_subset then Some (eval_subset_num task_specific_config) else None))))
       (\<lambda>dataloader.
     eval_dataloader_loop env c phase use_subset rest
       (AList.update task_name dataloader val_dataloader_dict))))))"

definition get_eval_dataloader_dict ::
  "env \<Rightarrow> 'r JiantRunner_scheme \<Rightarrow> string \<Rightarrow> string list \<Rightarrow> bool
   \<Rightarrow> ('a runner_state_scheme, (string \<times> (pyobj \<times> pyobj) list) list) prog" where
  "get_eval_dataloader_dict env self phase task_name_list use_subset =
     eval_dataloader_loop env (jiant_task_container self) phase use_subset task_name_list []"

text \<open>
  \<^verbatim>\<open>
  def get_val_dataloader_dict(self, task_name_list, use_subset=False):
      return self._get_eval_dataloader_dict(
          phase="val", task_name_list=task_name_list, use_subset=use_subset,
      )
  \<close>
\<close>

definition get_val_dataloader_dict ::
  "env \<Rightarrow> 'r JiantRunner_scheme \<Rightarrow> string list \<Rightarrow> bool
   \<Rightarrow> ('a runner_state_scheme, (string \<times> (pyobj \<times> pyobj) list) list) prog" where
  "get_val_dataloader_dict env self task_name_list use_subset =
     get_eval_dataloader_dict env self ''val'' task_name_list use_subset"

text \<open>\<open>xs[:k]\<close>\<close>

definition slice_to :: "int \<Rightarrow> 'a list \<Rightarrow> 'a list" where
  "slice_to k xs = (if 0 \<le> k then take (nat k) xs else take (nat (int (length xs) + k)) xs)"

text \<open>
  \<^verbatim>\<open>
  def get_val_labels_dict(self, task_name_list, use_subset=False):
      val_labels_dict = {}
      for task_name in task_name_list:
          task_specific_config = self.jiant_task_container.task_specific_configs[task_name]
          val_labels_cache = self.jiant_task_container.task_cache_dict[task_name]["val_labels"]
          val_labels = val_labels_cache.get_all()
          if use_subset:
              val_labels = val_labels[: task_specific_config.eval_subset_num]
          val_labels_dict[task_name] = val_labels
      return val_labels_dict
  \<close>
\<close>

fun val_labels_loop ::
  "env \<Rightarrow> JiantTaskContainer \<Rightarrow> bool \<Rightarrow> string list \<Rightarrow> (string \<times> pyobj list) list
   \<Rightarrow> ('a runner_state_scheme, (string \<times> pyobj list) list) prog" where
  "val_labels_loop env c use_subset [] val_labels_dict = ret val_labels_dict"
| "val_labels_loop env c use_subset (task_name # rest) val_labels_dict =
     bnd (getitem (task_specific_configs c) task_name) (\<lambda>task_specific_config.
     bnd (getitem (task_cache_dict c) task_name) (\<lambda>caches.
     bnd (getitem caches ''val_labels'') (\<lambda>val_labels_cache.
     bnd (call_fun (Labels_get_all val_labels_cache)
            (\<lambda>tr. labels_result env tr (Labels_get_all val_labels_cache))) (\<lambda>val_labels.
     val_labels_loop env c use_subset rest
       (AList.update task_name
          (if use_subset then slice_to (eval_subset_num task_specific_config) val_labels
           else val_labels)
          val_labels_dict)))))"

definition get_val_labels_dict ::
  "env \<Rightarrow> 'r JiantRunner_scheme \<Rightarrow> string list \<Rightarrow> bool
   \<Rightarrow> ('a runner_state_scheme, (string \<times> pyobj list) list) prog" where
  "get_val_labels_dict env self task_name_list use_subset =
     val_labels_loop env (jiant_task_container self) use_subset task_name_list []"

text \<open>
  \<^verbatim>\<open>
  def get_test_dataloader_dict(self):
      return self._get_eval_dataloader_dict(
          task_name_list=self.jiant_task_container.task_run_config.test_task_list,
          phase=PHASE.TEST,
      )
  \<close>
  \<open>PHASE.TEST\<close> is a constant of \<open>jiant.shared.constants\<close> and is the parameter
  \<open>phase_test\<close>.
\<close>

definition get_test_dataloader_dict ::
  "env \<Rightarrow> string \<Rightarrow> 'r JiantRunner_scheme
   \<Rightarrow> ('a runner_state_scheme, (string \<times> (pyobj \<times> pyobj) list) list) prog" where
  "get_test_dataloader_dict env phase_test self =
     get_eval_dataloader_dict env self phase_test
       (test_task_list (jiant_task_container self)) False"

text \<open>
  \<^verbatim>\<open>
  def run_val(self, task_name_list, use_subset=None, return_preds=False, verbose=True):
      evaluate_dict = {}
      val_dataloader_dict = self.get_val_dataloader_dict(
          task_name_list=task_name_list, use_subset=use_subset
      )
      val_labels_dict = self.get_val_labels_dict(
          task_name_list=task_name_list, use_subset=use_subset
      )
      for task_name in task_name_list:
          task = self.jiant_task_container.task_dict[task_name]
          evaluate_dict[task_name] = run_val(
              val_dataloader=val_dataloader_dict[task_name],
              val_labels=val_labels_dict[task_name],
              ...
              local_rank=self.rparams.local_rank,
              return_preds=return_preds,
          )
      return evaluate_dict
  \<close>
\<close>

fun run_val_loop ::
  "env \<Rightarrow> 'r JiantRunner_scheme \<Rightarrow> (string \<times> (pyobj \<times> pyobj) list) list
   \<Rightarrow> (string \<times> pyobj list) list \<Rightarrow> bool \<Rightarrow> string list
   \<Rightarrow> (string \<times> eval_output option) list
   \<Rightarrow> ('a runner_state_scheme, (string \<times> eval_output option) list) prog" where
  "run_val_loop env self val_dataloader_dict val_labels_dict return_preds [] evaluate_dict =
     ret evaluate_dict"
| "run_val_loop env self val_dataloader_dict val_labels_dict return_preds (task_name # rest)
     evaluate_dict =
     bnd (getitem (task_dict (jiant_task_container self)) task_name) (\<lambda>task.
     bnd (getitem val_dataloader_dict task_name) (\<lambda>val_dataloader.
     bnd (getitem val_labels_dict task_name) (\<lambda>val_labels.
     bnd (run_val env val_dataloader val_labels task (rparams_local_rank self) return_preds)
       (\<lambda>output.
     run_val_loop env self val_dataloader_dict val_labels_dict return_preds rest
       (AList.update task_name output evaluate_dict)))))"

definition JiantRunner_run_val ::
  "env \<Rightarrow> 'r JiantRunner_scheme \<Rightarrow> string list \<Rightarrow> bool \<Rightarrow> bool
   \<Rightarrow> ('a runner_state_scheme, (string \<times> eval_output option) list) prog" where
  "JiantRunner_run_val env self task_name_list use_subset return_preds =
     bnd (get_val_dataloader_dict env self task_name_list use_subset) (\<lambda>val_dataloader_dict.
     bnd (get_val_labels_dict env self task_name_list use_subset) (\<lambda>val_labels_dict.
     run_val_loop env self val_dataloader_dict val_labels_dict return_preds
       task_name_list []))"

text \<open>
  \<^verbatim>\<open>
  def run_test(self, task_name_list, verbose=True):
      evaluate_dict = {}
      test_dataloader_dict = self.get_test_dataloader_dict()
      for task_name in task_name_list:
          task = self.jiant_task_container.task_dict[task_name]
          evaluate_dict[task_name] = run_test(
              test_dataloader=test_dataloader_dict[task_name],
              ...
              local_rank=self.rparams.local_rank,
          )
      return evaluate_dict
  \<close>
\<close>

fun run_test_loop ::
  "env \<Rightarrow> 'r JiantRunner_scheme \<Rightarrow> (string \<times> (pyobj \<times> pyobj) list) list \<Rightarrow> string list
   \<Rightarrow> (string \<times> eval_output option) list
   \<Rightarrow> ('a runner_state_scheme, (string \<times> eval_output option) list) prog" where
  "run_test_loop env self test_dataloader_dict [] evaluate_dict = ret evaluate_dict"
| "run_test_loop env self test_dataloader_dict (task_name # rest) evaluate_dict =
     bnd (getitem (task_dict (jiant_task_container self)) task_name) (\<lambda>task.
     bnd (getitem test_dataloader_dict task_name) (\<lambda>test_dataloader.
     bnd (run_test env test_dataloader task (rparams_local_rank self) True) (\<lambda>output.
     run_test_loop env self test_dataloader_dict rest
       (AList.update task_name output evaluate_dict))))"

definition JiantRunner_run_test ::
  "env \<Rightarrow> string \<Rightarrow> 'r JiantRunner_scheme \<Rightarrow> string list
   \<Rightarrow> ('a runner_state_scheme, (string \<times> eval_output option) list) prog" where
  "JiantRunner_run_test env phase_test self task_name_list =
     bnd (get_test_dataloader_dict env phase_test self) (\<lambda>test_dataloader_dict.
     run_test_loop env self test_dataloader_dict task_name_list [])"

text \<open>The calls that build an evaluation dataloader.\<close>

definition dataloader_construction :: "event \<Rightarrow> bool" where
  "dataloader_construction ev = (case ev of Get_eval_dataloader _ _ _ _ \<Rightarrow> True | _ \<Rightarrow> False)"

section \<open>The What and Where networks\<close>

text \<open>
  Tensor elements are real numbers: floating-point rounding is not modelled.
  \<open>rows_of r n xs\<close> cuts the first \<open>r * n\<close> elements into \<open>r\<close> rows of \<open>n\<close>.
\<close>

definition rows_of :: "nat \<Rightarrow> nat \<Rightarrow> 'a list \<Rightarrow> 'a list list" where
  "rows_of r n xs = map (\<lambda>i. take n (drop (i * n) xs)) [0..<r]"

text \<open>
  \<open>nn.Linear(in_features, out_features)\<close>: a weight matrix of \<open>out_features\<close> rows
  and a bias of \<open>out_features\<close> entries, applied along the last axis of its input.
\<close>

record linear =
  in_features :: nat
  weight :: "real list list"
  bias :: "real list"

definition linear_row :: "linear \<Rightarrow> real list \<Rightarrow> real list" where
  "linear_row lin x =
     map (\<lambda>(w, b). sum_list (map (\<lambda>(a, c). a * c) (zip w x)) + b)
         (zip (weight lin) (bias lin))"

definition linear_apply :: "linear \<Rightarrow> tensor \<Rightarrow> py_error + tensor" where
  "linear_apply lin t =
     (if shape t = [] \<or> last (shape t) \<noteq> in_features lin then Inl RuntimeError
      else Inr \<lparr>shape = butlast (shape t) @ [length (bias lin)],
                elems = concat (map (linear_row lin)
                          (rows_of (prod_list (butlast (shape t))) (in_features lin)
                             (elems t)))\<rparr>)"

text \<open>\<open>out.reshape(r, c)\<close>: the number of elements must be \<open>r * c\<close>.\<close>

definition reshape2 :: "nat \<Rightarrow> nat \<Rightarrow> tensor \<Rightarrow> py_error + tensor" where
  "reshape2 r c t =
     (if length (elems t) = r * c then Inr \<lparr>shape = [r, c], elems = elems t\<rparr>
      else Inl RuntimeError)"

definition softmax_row :: "real list \<Rightarrow> real list" where
  "softmax_row xs = map (\<lambda>x. exp x / sum_list (map exp xs)) xs"

text \<open>\<open>F.softmax(out, 1)\<close> on a tensor of shape \<open>(r, c)\<close>.\<close>

definition softmax_dim1 :: "nat \<Rightarrow> nat \<Rightarrow> tensor \<Rightarrow> tensor" where
  "softmax_dim1 r c t =
     \<lparr>shape = [r, c], elems = concat (map softmax_row (rows_of r c (elems t)))\<rparr>"

text \<open>
  Iterating over a tensor, as \<open>outputs.extend(out)\<close> does, yields its slices along
  the first axis; a tensor without axes cannot be iterated.
\<close>

definition unbind0 :: "tensor \<Rightarrow> py_error + tensor list" where
  "unbind0 t =
     (case shape t of
        [] \<Rightarrow> Inl TypeError
      | d # ds \<Rightarrow>
          Inr (map (\<lambda>r. \<lparr>shape = ds, elems = r\<rparr>) (rows_of d (prod_list ds) (elems t))))"

definition relu :: "tensor \<Rightarrow> tensor" where
  "relu t = t\<lparr>elems := map (max 0) (elems t)\<rparr>"

definition squeeze :: "tensor \<Rightarrow> tensor" where
  "squeeze t = t\<lparr>shape := filter (\<lambda>d. d \<noteq> 1) (shape t)\<rparr>"

text \<open>
  \<^verbatim>\<open>
  class WhatNetwork(nn.Module):
      def __init__(self, hidden_size, teacher_num_layers, student_num_layers):
          ...
          for i in range(teacher_num_layers):
              self.what_network_linear.append(
                  nn.Linear(self.hidden_size, self.student_num_layers * self.hidden_size))

      def forward(self, teacher_states):
          outputs = []
          for i in range(len(teacher_states)):
              out = self.what_network_linear[i](teacher_states[i])
              out = out.reshape(self.student_num_layers, self.hidden_size)
              out = F.softmax(out, 1)
              outputs.extend(out)
          return outputs
  \<close>
\<close>

record WhatNetwork =
  what_hidden_size :: nat
  what_teacher_num_layers :: nat
  what_student_num_layers :: nat
  what_network_linear :: "linear list"

text \<open>What \<open>__init__\<close> builds: one layer per teacher layer, of the sizes given.\<close>

definition WhatNetwork_constructed :: "WhatNetwork \<Rightarrow> bool" where
  "WhatNetwork_constructed wn \<longleftrightarrow>
     length (what_network_linear wn) = what_teacher_num_layers wn
     \<and> list_all (\<lambda>lin.
          in_features lin = what_hidden_size wn
          \<and> length (weight lin) = what_student_num_layers wn * what_hidden_size wn
          \<and> length (bias lin) = what_student_num_layers wn * what_hidden_size wn
          \<and> list_all (\<lambda>w. length w = what_hidden_size wn) (weight lin))
         (what_network_linear wn)"

fun What_loop ::
  "WhatNetwork \<Rightarrow> tensor list \<Rightarrow> nat list \<Rightarrow> tensor list \<Rightarrow> py_error + tensor list" where
  "What_loop wn teacher_states [] outputs = Inr outputs"
| "What_loop wn teacher_states (i # rest) outputs =
     (if length (what_network_linear wn) \<le> i then Inl IndexError
      else case linear_apply (what_network_linear wn ! i) (teacher_states ! i) of
        Inl e \<Rightarrow> Inl e
      | Inr out \<Rightarrow>
         (case reshape2 (what_student_num_layers wn) (what_hidden_size wn) out of
            Inl e \<Rightarrow> Inl e
          | Inr out \<Rightarrow>
             (case unbind0 (softmax_dim1 (what_student_num_layers wn)
                              (what_hidden_size wn) out) of
                Inl e \<Rightarrow> Inl e
              | Inr slots \<Rightarrow> What_loop wn teacher_states rest (outputs @ slots))))"

definition WhatNetwork_forward :: "WhatNetwork \<Rightarrow> tensor list \<Rightarrow> py_error + tensor list" where
  "WhatNetwork_forward wn teacher_states =
     What_loop wn teacher_states [0..<length teacher_states] []"

text \<open>
  \<^verbatim>\<open>
  class WhereNetwork(nn.Module):
      ...
      def forward(self, teacher_states):
          outputs = []
          for i in range(self.teacher_num_layers):
              out = F.relu(self.where_network_linear[i](teacher_states[i])).squeeze()
              outputs.extend(out)
          return outputs
  \<close>
\<close>

record WhereNetwork =
  where_hidden_size :: nat
  where_teacher_num_layers :: nat
  where_student_num_layers :: nat
  where_network_linear :: "linear list"

fun Where_loop ::
  "WhereNetwork \<Rightarrow> tensor list \<Rightarrow> nat list \<Rightarrow> tensor list \<Rightarrow> py_error + tensor list" where
  "Where_loop wn teacher_states [] outputs = Inr outputs"
| "Where_loop wn teacher_states (i # rest) outputs =
     (if length (where_network_linear wn) \<le> i \<or> length teacher_states \<le> i
      then Inl IndexError
      else case linear_apply (where_network_linear wn ! i) (teacher_states ! i) of
        Inl e \<Rightarrow> Inl e
      | Inr out \<Rightarrow>
         (case unbind0 (squeeze (relu out)) of
            Inl e \<Rightarrow> Inl e
          | Inr slots \<Rightarrow> Where_loop wn teacher_states rest (outputs @ slots)))"

definition WhereNetwork_forward :: "WhereNetwork \<Rightarrow> tensor list \<Rightarrow> py_error + tensor list" where
  "WhereNetwork_forward wn teacher_states =
     Where_loop wn teacher_states [0..<where_teacher_num_layers wn] []"

section \<open>MetaWhatAndWhere\<close>

text \<open>
  \<^verbatim>\<open>
  class MetaWhatAndWhere(nn.Module):
      def __init__(self, what_network, where_network):
          super().__init__()
          self.what_network = what_network
          self.where_network = where_network
  \<close>
  These two are the only attributes the class ever sets on itself.
\<close>

record MetaWhatAndWhere =
  what_network :: WhatNetwork
  where_network :: WhereNetwork

definition MetaWhatAndWhere_attributes :: "string list" where
  "MetaWhatAndWhere_attributes = [''what_network'', ''where_network'']"

text \<open>
  The two nested loops of \<open>forward\<close>. The term of a pair of layers,
  \<^verbatim>\<open>
  diff = (teacher_states[m] - student_states[n]).pow(2)
  diff = diff.mean(3).mean(2)
  diff = (diff.mul(weights[m][n]).sum(1) * loss_weights[m][n]).mean(0)
  \<close>
  is tensor arithmetic of the library (with its broadcasting and its own errors) and is
  the parameter \<open>pair_term\<close>. \<open>diff\<close> is a local variable of \<open>forward\<close>: it is
  unbound (\<open>None\<close> here) until the inner loop has run once, and keeps its value
  from one \<open>m\<close> to the next.
  \<^verbatim>\<open>
  matching_loss = 0.0
  for m in range(len(teacher_states)):
      for n in range(len(student_states)):
          diff = ...
      matching_loss += diff
  return matching_loss
  \<close>
\<close>

fun student_loop ::
  "(nat \<Rightarrow> nat \<Rightarrow> py_error + real) \<Rightarrow> nat \<Rightarrow> nat list \<Rightarrow> real option
   \<Rightarrow> py_error + real option" where
  "student_loop pair_term m [] diff = Inr diff"
| "student_loop pair_term m (n # rest) diff =
     (case pair_term m n of
        Inl e \<Rightarrow> Inl e
      | Inr d \<Rightarrow> student_loop pair_term m rest (Some d))"

fun teacher_loop ::
  "(nat \<Rightarrow> nat \<Rightarrow> py_error + real) \<Rightarrow> nat \<Rightarrow> nat list \<Rightarrow> real option \<Rightarrow> real
   \<Rightarrow> py_error + real" where
  "teacher_loop pair_term num_student [] diff matching_loss = Inr matching_loss"
| "teacher_loop pair_term num_student (m # rest) diff matching_loss =
     (case student_loop pair_term m [0..<num_student] diff of
        Inl e \<Rightarrow> Inl e
      | Inr None \<Rightarrow> Inl UnboundLocalError
      | Inr (Some d) \<Rightarrow> teacher_loop pair_term num_student rest (Some d) (matching_loss + d))"

text \<open>
  \<^verbatim>\<open>
  def forward(self, teacher_states, student_states):
      weights = self.what_network(teacher_states)
      loss_weights = self.where_network(teacher_states)
      matching_loss = self.what_where_net(teacher_states, student_states, weights,
                                          loss_weights)

      matching_loss = 0.0
      for m in range(len(teacher_states)):
          ...
      return matching_loss
  \<close>
  \<open>self.what_where_net\<close> is an attribute lookup on the \<open>MetaWhatAndWhere\<close> object
  itself (the attribute of that name belongs to \<open>L2TWWRunner\<close>).
\<close>

definition MetaWhatAndWhere_forward ::
  "(tensor \<Rightarrow> tensor \<Rightarrow> tensor list \<Rightarrow> tensor list \<Rightarrow> nat \<Rightarrow> nat \<Rightarrow> py_error + real)
   \<Rightarrow> MetaWhatAndWhere \<Rightarrow> tensor list \<Rightarrow> tensor list \<Rightarrow> py_error + real" where
  "MetaWhatAndWhere_forward weighted_diff self teacher_states student_states =
     (case WhatNetwork_forward (what_network self) teacher_states of
        Inl e \<Rightarrow> Inl e
      | Inr weights \<Rightarrow>
         (case WhereNetwork_forward (where_network self) teacher_states of
            Inl e \<Rightarrow> Inl e
          | Inr loss_weights \<Rightarrow>
             if ''what_where_net'' \<notin> set MetaWhatAndWhere_attributes
             then Inl AttributeError
             else teacher_loop
                    (\<lambda>m n. weighted_diff (teacher_states ! m) (student_states ! n)
                              weights loss_weights m n)
                    (length student_states) [0..<length teacher_states] None 0))"

section \<open>L2TWWRunner\<close>

text \<open>
  \<open>L2TWWRunner\<close> extends \<open>JiantRunner\<close>; its state also holds, for each parameter of
  the teacher model, the flag \<open>requires_grad\<close>.
\<close>

record L2TWWRunner = JiantRunner +
  what_where_net :: MetaWhatAndWhere

record l2tww_state = runner_state +
  teacher_requires_grad :: "bool list"

text \<open>
  \<^verbatim>\<open>
  self.teacher_jiant_model = teacher_jiant_model
  for p in self.teacher_jiant_model.parameters():
      p.requires_grad = False
  \<close>
\<close>

definition L2TWWRunner_init :: "l2tww_state \<Rightarrow> l2tww_state" where
  "L2TWWRunner_init s =
     s\<lparr>teacher_requires_grad :=
         fold (\<lambda>p flags. flags[p := False]) [0..<length (teacher_requires_grad s)]
           (teacher_requires_grad s)\<rparr>"

text \<open>A pure computation inside an effectful one.\<close>

definition lift :: "py_error + 'v \<Rightarrow> ('s, 'v) prog" where
  "lift r = (\<lambda>s. (r, s))"

text \<open>
  \<^verbatim>\<open>
  def outer_objective(self, batch, task):
      outer_model_output = wrap_jiant_forward(
          jiant_model=self.jiant_model, batch=batch, task=task, compute_loss=True,
      )
      outer_loss = outer_model_output.loss
  \<close>
  There is no \<open>return\<close>: the value of the call is \<open>None\<close>.
\<close>

definition outer_objective ::
  "env \<Rightarrow> pyobj \<Rightarrow> pyobj \<Rightarrow> ('a runner_state_scheme, real option) prog" where
  "outer_objective env batch task =
     bnd (call_fun (Forward Student batch task True False)
            (\<lambda>tr. forward_result env tr (Forward Student batch task True False)))
       (\<lambda>outer_model_output. ret None)"

text \<open>\<open>x.backward()\<close> where \<open>x\<close> is a loss or \<open>None\<close>.\<close>

definition backward ::
  "env \<Rightarrow> real option \<Rightarrow> ('a runner_state_scheme, unit) prog" where
  "backward env x =
     (case x of None \<Rightarrow> raise AttributeError | Some l \<Rightarrow> call_proc env (Loss_backward l))"

text \<open>
  One inner step of \<open>run_inner_loop\<close>:
  \<^verbatim>\<open>
  self.optimizer_scheduler.optimizer.zero_grad()
  model_output = wrap_jiant_forward(
      jiant_model=self.jiant_model, batch=batch, task=task, compute_loss=True,
  )
  with torch.no_grad():
      teacher_model_output = wrap_jiant_forward(
          jiant_model=self.teacher_jiant_model, batch=batch, task=task, compute_loss=True,
      )
  beta = 0.5
  matching_loss = self.what_where_net(teacher_model_output.other[0], model_output.other[0])
  total_inner_loss = model_output.loss + matching_loss * beta
  total_inner_loss.backward()
  self.optimizer_scheduler.optimizer.step(None)
  \<close>
\<close>

definition inner_step ::
  "env \<Rightarrow> (tensor \<Rightarrow> tensor \<Rightarrow> tensor list \<Rightarrow> tensor list \<Rightarrow> nat \<Rightarrow> nat \<Rightarrow> py_error + real)
   \<Rightarrow> L2TWWRunner \<Rightarrow> pyobj \<Rightarrow> pyobj \<Rightarrow> ('a runner_state_scheme, unit) prog" where
  "inner_step env weighted_diff self batch task =
     bnd (call_proc env Optimizer_zero_grad) (\<lambda>_.
     bnd (call_fun (Forward Student batch task True False)
            (\<lambda>tr. forward_result env tr (Forward Student batch task True False)))
       (\<lambda>model_output.
     bnd (call_fun (Forward Teacher batch task True True)
            (\<lambda>tr. forward_result env tr (Forward Teacher batch task True True)))
       (\<lambda>teacher_model_output.
     bnd (lift (MetaWhatAndWhere_forward weighted_diff (what_where_net self)
                  (other0 teacher_model_output) (other0 model_output)))
       (\<lambda>matching_loss.
     bnd (backward env (Some (loss model_output + matching_loss * 0.5))) (\<lambda>_.
     call_proc env Optimizer_step)))))"

fun inner_steps_loop ::
  "env \<Rightarrow> (tensor \<Rightarrow> tensor \<Rightarrow> tensor list \<Rightarrow> tensor list \<Rightarrow> nat \<Rightarrow> nat \<Rightarrow> py_error + real)
   \<Rightarrow> L2TWWRunner \<Rightarrow> pyobj \<Rightarrow> pyobj \<Rightarrow> nat \<Rightarrow> ('a runner_state_scheme, unit) prog" where
  "inner_steps_loop env weighted_diff self batch task 0 = ret ()"
| "inner_steps_loop env weighted_diff self batch task (Suc k) =
     bnd (inner_step env weighted_diff self batch task) (\<lambda>_.
     inner_steps_loop env weighted_diff self batch task k)"

text \<open>
  What \<open>run_inner_loop\<close> does for a batch after its inner steps:
  \<^verbatim>\<open>
  self.meta_optimizer.zero_grad()
  self.optimizer_scheduler.optimizer.zero_grad()
  self.outer_objective(batch, task).backward()
  self.optimizer_scheduler.optimizer.meta_backward()
  self.meta_optimizer.step()
  \<close>
\<close>

definition outer_step ::
  "env \<Rightarrow> pyobj \<Rightarrow> pyobj \<Rightarrow> ('a runner_state_scheme, unit) prog" where
  "outer_step env batch task =
     bnd (call_proc env Meta_zero_grad) (\<lambda>_.
     bnd (call_proc env Optimizer_zero_grad) (\<lambda>_.
     bnd (outer_objective env batch task) (\<lambda>outer_loss.
     bnd (backward env outer_loss) (\<lambda>_.
     bnd (call_proc env Meta_backward) (\<lambda>_.
     call_proc env Meta_step)))))"

fun meta_batches_loop ::
  "env \<Rightarrow> (tensor \<Rightarrow> tensor \<Rightarrow> tensor list \<Rightarrow> tensor list \<Rightarrow> nat \<Rightarrow> nat \<Rightarrow> py_error + real)
   \<Rightarrow> L2TWWRunner \<Rightarrow> pyobj \<Rightarrow> int \<Rightarrow> pyobj list \<Rightarrow> ('a runner_state_scheme, unit) prog" where
  "meta_batches_loop env weighted_diff self task inner_steps [] = ret ()"
| "meta_batches_loop env weighted_diff self task inner_steps (batch # rest) =
     bnd (inner_steps_loop env weighted_diff self batch task (nat inner_steps)) (\<lambda>_.
     bnd (outer_step env batch task) (\<lambda>_.
     meta_batches_loop env weighted_diff self task inner_steps rest))"

text \<open>
  \<^verbatim>\<open>
  def run_inner_loop(self,  meta_batches, task, inner_steps=1):
      self.teacher_jiant_model.eval()
      for batch in meta_batches:
          for inner_idx in range(inner_steps):
              ...
          ...
  \<close>
\<close>

definition L2TWWRunner_run_inner_loop ::
  "env \<Rightarrow> (tensor \<Rightarrow> tensor \<Rightarrow> tensor list \<Rightarrow> tensor list \<Rightarrow> nat \<Rightarrow> nat \<Rightarrow> py_error + real)
   \<Rightarrow> L2TWWRunner \<Rightarrow> pyobj list \<Rightarrow> pyobj \<Rightarrow> int \<Rightarrow> ('a runner_state_scheme, unit) prog" where
  "L2TWWRunner_run_inner_loop env weighted_diff self meta_batches task inner_steps =
     bnd (call_proc env (Model_eval Teacher)) (\<lambda>_.
     meta_batches_loop env weighted_diff self task inner_steps meta_batches)"

text \<open>
  The accumulation loop of the override: the loop of \<open>JiantRunner.run_train_step\<close>
  with \<open>meta_batches.append(batch)\<close>.
\<close>

fun accumulate_meta ::
  "env \<Rightarrow> string list \<Rightarrow> string \<Rightarrow> pyobj \<Rightarrow> int \<Rightarrow> nat \<Rightarrow> real \<Rightarrow> pyobj list
   \<Rightarrow> ('a runner_state_scheme, real \<times> pyobj list) prog" where
  "accumulate_meta env train_dataloader_dict task_name task n 0 loss_val meta_batches =
     ret (loss_val, meta_batches)"
| "accumulate_meta env train_dataloader_dict task_name task n (Suc k) loss_val meta_batches =
     bnd (microbatch env train_dataloader_dict task_name task n) (\<lambda>(batch, l).
     accumulate_meta env train_dataloader_dict task_name task n k (loss_val + l)
       (meta_batches @ [batch]))"

text \<open>
  \<^verbatim>\<open>
  def run_train_step(self, train_dataloader_dict: dict, train_state: TrainState):
      self.jiant_model.train()
      task_name, task = self.jiant_task_container.task_sampler.pop()
      task_specific_config = self.jiant_task_container.task_specific_configs[task_name]
      loss_val = 0
      meta_batches = []
      for i in range(task_specific_config.gradient_accumulation_steps):
          ...
      self.optimizer_scheduler.step(None)
      self.optimizer_scheduler.optimizer.zero_grad()

      self.run_inner_loop(meta_batches, task)

      train_state.step(task_name=task_name)
      self.log_writer.write_entry(...)
  \<close>
\<close>

definition L2TWWRunner_run_train_step ::
  "env \<Rightarrow> (tensor \<Rightarrow> tensor \<Rightarrow> tensor list \<Rightarrow> tensor list \<Rightarrow> nat \<Rightarrow> nat \<Rightarrow> py_error + real)
   \<Rightarrow> L2TWWRunner \<Rightarrow> string list \<Rightarrow> ('a runner_state_scheme, unit) prog" where
  "L2TWWRunner_run_train_step env weighted_diff self train_dataloader_dict =
     bnd (call_proc env Model_train) (\<lambda>_.
     bnd (call_fun Sampler_pop (sampler_result env)) (\<lambda>(task_name, task).
     bnd (getitem (task_specific_configs (jiant_task_container self)) task_name)
       (\<lambda>task_specific_config.
     bnd (accumulate_meta env train_dataloader_dict task_name task
            (gradient_accumulation_steps task_specific_config)
            (nat (gradient_accumulation_steps task_specific_config)) 0 []) (\<lambda>(loss_val, meta_batches).
     bnd (call_proc env Scheduler_step_None) (\<lambda>_.
     bnd (call_proc env Optimizer_zero_grad) (\<lambda>_.
     bnd (L2TWWRunner_run_inner_loop env weighted_diff self meta_batches task 1) (\<lambda>_.
     bnd (on_train_state (step task_name)) (\<lambda>_.
     write_loss_train env task_name loss_val
       (gradient_accumulation_steps task_specific_config)))))))))"

text \<open>The values \<open>loss.item()\<close> seen in a trace, in order.\<close>

definition observed_losses :: "event list \<Rightarrow> real list" where
  "observed_losses tr =
     List.map_filter (\<lambda>ev. case ev of Backpropagate l n r \<Rightarrow> r | _ \<Rightarrow> None) tr"

text \<open>The calls one micro-batch of the accumulation loop makes.\<close>

definition microbatch_event :: "event \<Rightarrow> bool" where
  "microbatch_event ev =
     (case ev of
        Dataloader_pop _ \<Rightarrow> True
      | Batch_to _ \<Rightarrow> True
      | Forward m _ _ compute_loss no_grad \<Rightarrow> m = Student \<and> compute_loss \<and> \<not> no_grad
      | Backpropagate _ _ _ \<Rightarrow> True
      | _ \<Rightarrow> False)"

text \<open>
  The calls made between two states, and the frame of a computation that only
  appends to the trace.
\<close>

definition new_events :: "'a runner_state_scheme \<Rightarrow> 'a runner_state_scheme \<Rightarrow> event list" where
  "new_events s s' = drop (length (trace s)) (trace s')"

definition extends :: "'a runner_state_scheme \<Rightarrow> 'a runner_state_scheme \<Rightarrow> bool" where
  "extends s s' \<longleftrightarrow> s' = s\<lparr>trace := trace s @ new_events s s'\<rparr>"

section \<open>Frames and classes of calls\<close>

text \<open>
  The frame of a method of the runner: whatever it does, it only appends to the trace
  and writes the \<open>TrainState\<close>; every other part of the state is as before.
\<close>

definition frame :: "'a runner_state_scheme \<Rightarrow> 'a runner_state_scheme \<Rightarrow> bool" where
  "frame s s' \<longleftrightarrow>
     s' = s\<lparr>trace := trace s @ new_events s s', train_state := train_state s'\<rparr>"

text \<open>
  \<open>emits Q m\<close>: every run of \<open>m\<close>, returning or raising, keeps the frame and
  makes a sequence of calls that satisfies \<open>Q\<close>. \<open>emits_raising Q m\<close>: moreover no
  run of \<open>m\<close> returns.
\<close>

definition emits :: "(event list \<Rightarrow> bool) \<Rightarrow> ('a runner_state_scheme, 'v) prog \<Rightarrow> bool" where
  "emits Q m \<longleftrightarrow> (\<forall>s r s'. m s = (r, s') \<longrightarrow> frame s s' \<and> Q (new_events s s'))"

definition emits_raising ::
  "(event list \<Rightarrow> bool) \<Rightarrow> ('a runner_state_scheme, 'v) prog \<Rightarrow> bool" where
  "emits_raising Q m \<longleftrightarrow>
     (\<forall>s r s'. m s = (r, s') \<longrightarrow> frame s s' \<and> Q (new_events s s') \<and> (\<exists>e. r = Inl e))"

definition append_closed :: "(event list \<Rightarrow> bool) \<Rightarrow> bool" where
  "append_closed Q \<longleftrightarrow> Q [] \<and> (\<forall>a b. Q a \<longrightarrow> Q b \<longrightarrow> Q (a @ b))"

text \<open>
  The only calls that name a model are the forward passes and \<open>eval()\<close>; a call
  leaves the teacher read-only when it is not a forward pass of the teacher with
  gradient tracking on.
\<close>

definition teacher_read_only :: "event \<Rightarrow> bool" where
  "teacher_read_only ev =
     (case ev of Forward m _ _ _ no_grad \<Rightarrow> m = Teacher \<longrightarrow> no_grad | _ \<Rightarrow> True)"

text \<open>The calls that appear in the text of \<open>run_inner_loop\<close>.\<close>

definition inner_loop_event :: "event \<Rightarrow> bool" where
  "inner_loop_event ev =
     (case ev of
        Model_eval m \<Rightarrow> m = Teacher
      | Optimizer_zero_grad \<Rightarrow> True
      | Forward m _ _ compute_loss no_grad \<Rightarrow> compute_loss \<and> (no_grad \<longleftrightarrow> m = Teacher)
      | Loss_backward _ \<Rightarrow> True
      | Optimizer_step \<Rightarrow> True
      | Meta_zero_grad \<Rightarrow> True
      | Meta_backward \<Rightarrow> True
      | Meta_step \<Rightarrow> True
      | _ \<Rightarrow> False)"

text \<open>The calls that appear in one inner step.\<close>

definition inner_step_event :: "event \<Rightarrow> bool" where
  "inner_step_event ev =
     (case ev of
        Optimizer_zero_grad \<Rightarrow> True
      | Forward m _ _ compute_loss no_grad \<Rightarrow> compute_loss \<and> (no_grad \<longleftrightarrow> m = Teacher)
      | Loss_backward _ \<Rightarrow> True
      | Optimizer_step \<Rightarrow> True
      | _ \<Rightarrow> False)"

text \<open>The calls that appear in the text of \<open>L2TWWRunner.run_train_step\<close>.\<close>

definition train_step_event :: "event \<Rightarrow> bool" where
  "train_step_event ev \<longleftrightarrow>
     microbatch_event ev \<or> inner_loop_event ev \<or> ev = Model_train \<or> ev = Sampler_pop
     \<or> ev = Scheduler_step_None \<or> (\<exists>k e. ev = Log_write k e)"

text \<open>The calls of \<open>run_inner_loop\<close> other than the meta-gradient update.\<close>

definition before_meta_update :: "event \<Rightarrow> bool" where
  "before_meta_update ev \<longleftrightarrow> inner_loop_event ev \<and> ev \<noteq> Meta_backward \<and> ev \<noteq> Meta_step"

text \<open>A forward pass of the teacher: it happens only inside an inner step.\<close>

definition teacher_forward :: "event \<Rightarrow> bool" where
  "teacher_forward ev = (case ev of Forward m _ _ _ _ \<Rightarrow> m = Teacher | _ \<Rightarrow> False)"

text \<open>
  Properties of the sequence of calls of a run, used to count the optimizer steps and
  gradient zeroings of \<open>L2TWWRunner.run_train_step\<close>: what holds of the calls of
  \<open>run_inner_loop\<close>, of the calls from the first zeroing on, and of the whole call.
\<close>

definition zeroes_before_teacher :: "event list \<Rightarrow> bool" where
  "zeroes_before_teacher evs \<longleftrightarrow>
     Scheduler_step_None \<notin> set evs
     \<and> ((\<exists>e \<in> set evs. teacher_forward e) \<longrightarrow> Optimizer_zero_grad \<in> set evs)"

definition zeroed_twice :: "event list \<Rightarrow> bool" where
  "zeroed_twice evs \<longleftrightarrow>
     Scheduler_step_None \<notin> set evs
     \<and> ((\<exists>e \<in> set evs. teacher_forward e) \<longrightarrow> 2 \<le> count_list evs Optimizer_zero_grad)"

definition stepped_once_zeroed_twice :: "event list \<Rightarrow> bool" where
  "stepped_once_zeroed_twice evs \<longleftrightarrow>
     ((\<exists>e \<in> set evs. teacher_forward e) \<longrightarrow>
        count_list evs Scheduler_step_None = 1 \<and> 2 \<le> count_list evs Optimizer_zero_grad)"

text \<open>The calls made before the scheduler step.\<close>

definition base_event :: "event \<Rightarrow> bool" where
  "base_event ev \<longleftrightarrow>
     ev \<noteq> Scheduler_step_None \<and> ev \<noteq> Optimizer_zero_grad \<and> \<not> teacher_forward ev"

section \<open>Concrete collaborators\<close>

text \<open>
  Collaborators that never raise, for running the model on concrete inputs: the
  sampler always yields the task \<open>rte\<close>, a cursor yields a fresh batch at each call, the
  loss of a forward pass is the number of calls made before it, its hidden states are
  one layer holding one vector of size 1, and \<open>complex_backpropagate\<close> returns the
  loss divided by the accumulation steps. The What and Where networks of the demo runner
  have one teacher layer, two student layers and hidden size 1.
\<close>

definition demo_env :: env where
  "demo_env =
     \<lparr>proc_result = (\<lambda>tr ev. None),
      obj_result = (\<lambda>tr ev. case ev of Batch_to b \<Rightarrow> Inr b | _ \<Rightarrow> Inr (Obj 0)),
      sampler_result = (\<lambda>tr. Inr (''rte'', Obj 7)),
      pop_result = (\<lambda>tr task_name. Inr (Obj (length tr), Obj 0)),
      forward_result =
        (\<lambda>tr ev. Inr \<lparr>loss = real (length tr), logits = Obj 0,
                          other0 = [\<lparr>shape = [1], elems = [0]\<rparr>]\<rparr>),
      backprop_result = (\<lambda>tr l n. Inr (l / real_of_int n)),
      dataloader_result = (\<lambda>tr ev. Inr [(Obj 1, Obj 2)]),
      labels_result = (\<lambda>tr ev. Inr [Obj 3])\<rparr>"

definition demo_container :: "int \<Rightarrow> JiantTaskContainer" where
  "demo_container n =
     \<lparr>task_dict = [(''rte'', Obj 7)],
      task_cache_dict = [(''rte'', [(''val'', Obj 8), (''val_labels'', Obj 9), (''test'', Obj 10)])],
      task_specific_configs =
        [(''rte'', \<lparr>gradient_accumulation_steps = n, eval_batch_size = 8, eval_subset_num = 4\<rparr>)],
      test_task_list = [''rte'']\<rparr>"

definition demo_runner :: "int \<Rightarrow> JiantRunner" where
  "demo_runner n = \<lparr>jiant_task_container = demo_container n, rparams_local_rank = - 1\<rparr>"

definition demo_what_where_net :: MetaWhatAndWhere where
  "demo_what_where_net =
     \<lparr>what_network =
        \<lparr>what_hidden_size = 1, what_teacher_num_layers = 1, what_student_num_layers = 2,
         what_network_linear = [\<lparr>in_features = 1, weight = [[0], [0]], bias = [0, 0]\<rparr>]\<rparr>,
      where_network =
        \<lparr>where_hidden_size = 1, where_teacher_num_layers = 1, where_student_num_layers = 2,
         where_network_linear = [\<lparr>in_features = 1, weight = [[0], [0]], bias = [0, 0]\<rparr>]\<rparr>\<rparr>"

definition demo_l2tww_runner :: "int \<Rightarrow> L2TWWRunner" where
  "demo_l2tww_runner n =
     \<lparr>jiant_task_container = demo_container n, rparams_local_rank = - 1,
      what_where_net = demo_what_where_net\<rparr>"

definition demo_weighted_diff ::
  "tensor \<Rightarrow> tensor \<Rightarrow> tensor list \<Rightarrow> tensor list \<Rightarrow> nat \<Rightarrow> nat \<Rightarrow> py_error + real" where
  "demo_weighted_diff t s weights loss_weights m n = Inr 0"

definition demo_l2tww_state :: l2tww_state where
  "demo_l2tww_state =
     \<lparr>trace = [], train_state = from_task_name_list [''rte''],
      teacher_requires_grad = [True, False, True]\<rparr>"

definition demo_state :: runner_state where
  "demo_state = \<lparr>trace = [], train_state = from_task_name_list [''rte'']\<rparr>"

text \<open>A slot of the What network's output: \<open>h\<close> entries that sum to 1.\<close>

definition slot_ok :: "nat \<Rightarrow> tensor \<Rightarrow> bool" where
  "slot_ok h slot \<longleftrightarrow>
     shape slot = [h] \<and> length (elems slot) = h \<and> sum_list (elems slot) = 1"

text \<open>
  A tensor that holds one vector of size \<open>h\<close>: its last axis has size \<open>h\<close> and
  every other axis has size 1.
\<close>

definition single_vector :: "nat \<Rightarrow> tensor \<Rightarrow> bool" where
  "single_vector h t \<longleftrightarrow>
     shape t \<noteq> [] \<and> last (shape t) = h \<and> prod_list (butlast (shape t)) = 1"

text \<open>A What network with one teacher layer, two student layers and hidden size 2.\<close>

definition demo_what_network :: WhatNetwork where
  "demo_what_network =
     \<lparr>what_hidden_size = 2, what_teacher_num_layers = 1, what_student_num_layers = 2,
      what_network_linear =
        [\<lparr>in_features = 2, weight = [[0, 0], [0, 0], [0, 0], [0, 0]],
          bias = [0, 0, 0, 0]\<rparr>]\<rparr>"

section \<open>Properties of TrainState\<close>

lemma fold_update_keys:
  "fst ` set (fold (\<lambda>k d. AList.update k (0::int) d) ks al) = set ks \<union> fst ` set al"
  by (induction ks arbitrary: al) (auto simp: AList.dom_update)

lemma fold_update_distinct:
  "distinct (map fst al) \<Longrightarrow>
   distinct (map fst (fold (\<lambda>k d. AList.update k (0::int) d) ks al))"
  by (induction ks arbitrary: al) (auto simp: AList.distinct_update)

lemma fold_update_zero:
  "\<forall>p \<in> set al. snd p = 0 \<Longrightarrow>
   \<forall>p \<in> set (fold (\<lambda>k d. AList.update k (0::int) d) ks al). snd p = 0"
proof (induction ks arbitrary: al)
  case Nil
  then show ?case by simp
next
  case (Cons k ks)
  have "\<forall>p \<in> set (AList.update k (0::int) al). snd p = 0"
    using Cons.prems by (induction al) auto
  from Cons.IH [OF this] show ?case by simp
qed

lemma task_names_from_task_name_list:
  "task_names (from_task_name_list names) = set names"
  by (simp add: task_names_def from_task_name_list_def fold_update_keys)

lemma sum_list_all_zero: "\<forall>x \<in> set xs. x = (0::int) \<Longrightarrow> sum_list xs = 0"
  by (induction xs) auto

lemma consistent_from_task_name_list:
  "counters_consistent (from_task_name_list names)"
proof -
  let ?al = "fold (\<lambda>k d. AList.update k (0::int) d) names []"
  have "\<forall>p \<in> set ?al. snd p = 0"
    by (rule fold_update_zero) simp
  then have "sum_list (map snd ?al) = 0"
    by (intro sum_list_all_zero) auto
  moreover have "distinct (map fst ?al)"
    by (rule fold_update_distinct) simp
  ultimately show ?thesis
    by (simp add: counters_consistent_def sum_task_steps_def from_task_name_list_def)
qed

lemma sum_update_present:
  "map_of al k = Some n \<Longrightarrow>
   sum_list (map snd (AList.update k v al)) = sum_list (map snd al) - n + (v::int)"
proof (induction al)
  case Nil
  then show ?case by simp
next
  case (Cons p al)
  then show ?case by (cases p) (auto split: if_splits)
qed

lemma step_missing:
  "t \<notin> task_names ts \<Longrightarrow> step t ts = (Inl KeyError, ts)"
  by (auto simp: step_def task_names_def map_of_eq_None_iff [symmetric] split: option.splits)

lemma step_present:
  assumes "t \<in> task_names ts"
  obtains n where "map_of (task_steps ts) t = Some n"
    and "step t ts = (Inr (),
           ts\<lparr>task_steps := AList.update t (n + 1) (task_steps ts),
              global_steps := global_steps ts + 1\<rparr>)"
proof -
  from assms obtain n where n: "map_of (task_steps ts) t = Some n"
    by (cases "map_of (task_steps ts) t")
       (auto simp: task_names_def map_of_eq_None_iff)
  then have "step t ts = (Inr (),
           ts\<lparr>task_steps := AList.update t (n + 1) (task_steps ts),
              global_steps := global_steps ts + 1\<rparr>)"
    by (simp add: step_def)
  with n that show thesis by blast
qed

lemma step_task_names:
  assumes "step t ts = (r, ts')"
  shows "task_names ts' = task_names ts"
proof (cases "map_of (task_steps ts) t")
  case None
  with assms show ?thesis by (simp add: step_def)
next
  case (Some n)
  then have "t \<in> fst ` set (task_steps ts)"
    by (metis map_of_eq_None_iff option.distinct(1))
  moreover from Some assms
  have "task_steps ts' = AList.update t (n + 1) (task_steps ts)"
    by (auto simp: step_def)
  ultimately show ?thesis
    by (auto simp: task_names_def AList.dom_update)
qed

lemma step_consistent:
  assumes "counters_consistent ts" and "step t ts = (r, ts')"
  shows "counters_consistent ts'"
proof (cases "map_of (task_steps ts) t")
  case None
  with assms show ?thesis by (simp add: step_def)
next
  case (Some n)
  with assms(2) have ts': "ts' = ts\<lparr>task_steps := AList.update t (n + 1) (task_steps ts),
              global_steps := global_steps ts + 1\<rparr>"
    by (simp add: step_def)
  from assms(1) show ?thesis
    by (simp add: ts' counters_consistent_def sum_task_steps_def
                  sum_update_present [OF Some] AList.distinct_update)
qed

lemma steps_from_names:
  assumes "set calls \<subseteq> task_names ts" and "counters_consistent ts"
  shows "\<exists>ts'. steps calls ts = (Inr (), ts') \<and> counters_consistent ts'
               \<and> task_names ts' = task_names ts"
  using assms
proof (induction calls arbitrary: ts)
  case Nil
  then show ?case by (simp add: ret_def)
next
  case (Cons t calls)
  from Cons.prems have "t \<in> task_names ts" by simp
  then obtain ts1 where st: "step t ts = (Inr (), ts1)"
    by (rule step_present) blast
  have c1: "counters_consistent ts1"
    using Cons.prems(2) st by (rule step_consistent)
  have n1: "task_names ts1 = task_names ts"
    using st by (rule step_task_names)
  with Cons.prems have "set calls \<subseteq> task_names ts1" by simp
  from Cons.IH [OF this c1] n1 st show ?case
    by (auto simp: bnd_def)
qed

text \<open>
  C4. Start from \<open>from_task_name_list names\<close> and make any finite sequence of
  \<open>step\<close> calls whose task names all come from \<open>names\<close>. After every prefix of
  the sequence (every observation point) the calls made so far have all returned
  normally, and \<open>global_steps\<close> equals the sum of the values of \<open>task_steps\<close>.
\<close>

theorem global_steps_is_sum_of_task_steps:
  assumes "set calls \<subseteq> set names" and "k \<le> length calls"
  shows "\<exists>ts. steps (take k calls) (from_task_name_list names) = (Inr (), ts)
              \<and> global_steps ts = sum_task_steps ts"
proof -
  have "set (take k calls) \<subseteq> task_names (from_task_name_list names)"
    using assms(1) set_take_subset [of k calls]
    by (auto simp: task_names_from_task_name_list)
  from steps_from_names [OF this consistent_from_task_name_list]
  show ?thesis by (auto simp: counters_consistent_def)
qed

theorem global_steps_is_sum_of_task_steps_witness:
  "\<exists>ts. steps (take 2 [''mnli'', ''rte'', ''mnli''])
            (from_task_name_list [''rte'', ''mnli'']) = (Inr (), ts)
        \<and> global_steps ts = sum_task_steps ts"
  using global_steps_is_sum_of_task_steps
          [of "[''mnli'', ''rte'', ''mnli'']" "[''rte'', ''mnli'']" 2]
  by simp

lemma steps_task_names:
  "steps calls ts = (r, ts') \<Longrightarrow> task_names ts' = task_names ts"
proof (induction calls arbitrary: ts)
  case Nil
  then show ?case by (simp add: ret_def)
next
  case (Cons t calls)
  obtain r1 ts1 where st: "step t ts = (r1, ts1)"
    by (cases "step t ts")
  have n1: "task_names ts1 = task_names ts"
    using st by (rule step_task_names)
  show ?case
  proof (cases r1)
    case (Inl e)
    with Cons.prems st n1 show ?thesis by (simp add: bnd_def)
  next
    case (Inr u)
    with Cons.prems st have "steps calls ts1 = (r, ts')" by (simp add: bnd_def)
    from Cons.IH [OF this] n1 show ?thesis by simp
  qed
qed

lemma update_other_key:
  "u \<noteq> t \<Longrightarrow> map_of (AList.update t v al) u = map_of al u"
  by (simp add: AList.update_conv')

lemma update_keeps_keys:
  "map_of al t = Some n \<Longrightarrow> map fst (AList.update t v al) = map fst al"
  by (induction al) (auto split: if_splits)

text \<open>
  C8. Let \<open>ts\<close> be a state created by \<open>from_task_name_list names\<close> (and possibly
  advanced by earlier successful steps). For \<open>t\<close> among \<open>names\<close>, \<open>step t\<close> returns
  normally, \<open>task_steps[t]\<close> and \<open>global_steps\<close> are each one larger afterwards, every
  other task counter is as before and no key is added or removed. For \<open>t\<close> not among
  \<open>names\<close>, \<open>step t\<close> raises \<open>KeyError\<close> and the state is the one before the call.
\<close>

theorem step_increments_or_raises_KeyError:
  assumes "steps calls (from_task_name_list names) = (Inr (), ts)"
  shows "(t \<in> set names \<longrightarrow>
            (\<exists>n ts'. map_of (task_steps ts) t = Some n
               \<and> step t ts = (Inr (), ts')
               \<and> map_of (task_steps ts') t = Some (n + 1)
               \<and> global_steps ts' = global_steps ts + 1
               \<and> (\<forall>u. u \<noteq> t \<longrightarrow> map_of (task_steps ts') u = map_of (task_steps ts) u)
               \<and> map fst (task_steps ts') = map fst (task_steps ts)))
       \<and> (t \<notin> set names \<longrightarrow> step t ts = (Inl KeyError, ts))"
proof -
  have names: "task_names ts = set names"
    using steps_task_names [OF assms] by (simp add: task_names_from_task_name_list)
  show ?thesis
  proof (intro conjI impI)
    assume "t \<in> set names"
    with names have "t \<in> task_names ts" by simp
    then obtain n where n: "map_of (task_steps ts) t = Some n"
      and st: "step t ts = (Inr (),
           ts\<lparr>task_steps := AList.update t (n + 1) (task_steps ts),
              global_steps := global_steps ts + 1\<rparr>)"
      by (rule step_present)
    let ?ts' = "ts\<lparr>task_steps := AList.update t (n + 1) (task_steps ts),
                   global_steps := global_steps ts + 1\<rparr>"
    have "map_of (task_steps ?ts') t = Some (n + 1)"
      by (simp add: AList.update_conv')
    moreover have "global_steps ?ts' = global_steps ts + 1" by simp
    moreover have "\<forall>u. u \<noteq> t \<longrightarrow> map_of (task_steps ?ts') u = map_of (task_steps ts) u"
      by (simp add: update_other_key)
    moreover have "map fst (task_steps ?ts') = map fst (task_steps ts)"
      using n by (simp add: update_keeps_keys)
    ultimately show "\<exists>n ts'. map_of (task_steps ts) t = Some n
               \<and> step t ts = (Inr (), ts')
               \<and> map_of (task_steps ts') t = Some (n + 1)
               \<and> global_steps ts' = global_steps ts + 1
               \<and> (\<forall>u. u \<noteq> t \<longrightarrow> map_of (task_steps ts') u = map_of (task_steps ts) u)
               \<and> map fst (task_steps ts') = map fst (task_steps ts)"
      using n st by blast
  next
    assume "t \<notin> set names"
    with names have "t \<notin> task_names ts" by simp
    then show "step t ts = (Inl KeyError, ts)" by (rule step_missing)
  qed
qed

theorem step_increments_or_raises_KeyError_witness:
  "steps [''rte''] (from_task_name_list [''rte'', ''mnli''])
     = (Inr (), \<lparr>global_steps = 1, task_steps = [(''rte'', 1), (''mnli'', 0)]\<rparr>)
   \<and> (\<exists>ts'. step ''rte'' \<lparr>global_steps = 1, task_steps = [(''rte'', 1), (''mnli'', 0)]\<rparr>
               = (Inr (), ts')
            \<and> map_of (task_steps ts') ''rte'' = Some 2 \<and> global_steps ts' = 2
            \<and> map_of (task_steps ts') ''mnli'' = Some 0)
   \<and> step ''sst'' \<lparr>global_steps = 1, task_steps = [(''rte'', 1), (''mnli'', 0)]\<rparr>
       = (Inl KeyError, \<lparr>global_steps = 1, task_steps = [(''rte'', 1), (''mnli'', 0)]\<rparr>)"
proof -
  let ?ts = "\<lparr>global_steps = 1, task_steps = [(''rte'', 1), (''mnli'', 0)]\<rparr>"
  have h: "steps [''rte''] (from_task_name_list [''rte'', ''mnli'']) = (Inr (), ?ts)"
    by (simp add: from_task_name_list_def step_def bnd_def ret_def)
  from step_increments_or_raises_KeyError [OF h, of "''rte''"]
  obtain n ts' where n: "map_of (task_steps ?ts) ''rte'' = Some n"
    and st: "step ''rte'' ?ts = (Inr (), ts')"
    and t1: "map_of (task_steps ts') ''rte'' = Some (n + 1)"
    and g1: "global_steps ts' = global_steps ?ts + 1"
    and others: "\<forall>u. u \<noteq> ''rte'' \<longrightarrow>
                   map_of (task_steps ts') u = map_of (task_steps ?ts) u"
    by auto
  from n have "n = 1" by simp
  moreover from others have "map_of (task_steps ts') ''mnli'' = map_of (task_steps ?ts) ''mnli''"
    by simp
  ultimately have "\<exists>ts'. step ''rte'' ?ts = (Inr (), ts')
            \<and> map_of (task_steps ts') ''rte'' = Some 2 \<and> global_steps ts' = 2
            \<and> map_of (task_steps ts') ''mnli'' = Some 0"
    using st t1 g1 by auto
  moreover from step_increments_or_raises_KeyError [OF h, of "''sst''"]
  have "step ''sst'' ?ts = (Inl KeyError, ?ts)" by simp
  ultimately show ?thesis using h by blast
qed

section \<open>Effectful computations and their traces\<close>

lemma bnd_ret [simp]: "bnd (ret v) f s = f v s"
  by (simp add: bnd_def ret_def)

lemma bnd_raise [simp]: "bnd (raise e) f s = (Inl e, s)"
  by (simp add: bnd_def raise_def)

lemma bnd_call_fun:
  "bnd (call_fun ev g) f s =
     (case g (trace s) of
        Inl e \<Rightarrow> (Inl e, s\<lparr>trace := trace s @ [ev]\<rparr>)
      | Inr v \<Rightarrow> f v (s\<lparr>trace := trace s @ [ev]\<rparr>))"
  by (simp add: bnd_def call_fun_def split: sum.splits)

lemma bnd_call_proc:
  "bnd (call_proc env ev) f s =
     (case proc_result env (trace s) ev of
        Some e \<Rightarrow> (Inl e, s\<lparr>trace := trace s @ [ev]\<rparr>)
      | None \<Rightarrow> f () (s\<lparr>trace := trace s @ [ev]\<rparr>))"
  by (simp add: bnd_def call_proc_def split: option.splits)

lemma bnd_call_backpropagate:
  "bnd (call_backpropagate env l n) f s =
     (case backprop_result env (trace s) l n of
        Inl e \<Rightarrow> (Inl e, s\<lparr>trace := trace s @ [Backpropagate l n None]\<rparr>)
      | Inr v \<Rightarrow> f v (s\<lparr>trace := trace s @ [Backpropagate l n (Some v)]\<rparr>))"
  by (simp add: bnd_def call_backpropagate_def Let_def split: sum.splits)

lemma bnd_if:
  "bnd (if c then m1 else m2) f s = (if c then bnd m1 f s else bnd m2 f s)"
  by simp

lemma bnd_InrE:
  assumes "bnd m f s = (Inr v, s')"
  obtains w s1 where "m s = (Inr w, s1)" and "f w s1 = (Inr v, s')"
proof (cases "m s")
  case (Pair r1 s1)
  with assms that show thesis by (cases r1) (auto simp: bnd_def)
qed

lemma bndE:
  assumes "bnd m f s = (r, s')"
  obtains (fail) e where "m s = (Inl e, s')" and "r = Inl e"
        | (ok) v s1 where "m s = (Inr v, s1)" and "f v s1 = (r, s')"
proof (cases "m s")
  case (Pair r1 s1)
  show thesis
  proof (cases r1)
    case (Inl e)
    with Pair assms fail show ?thesis by (simp add: bnd_def)
  next
    case (Inr v)
    with Pair assms ok show ?thesis by (simp add: bnd_def)
  qed
qed

lemma call_proc_Inr:
  "call_proc env ev s = (Inr u, s1) \<Longrightarrow> s1 = s\<lparr>trace := trace s @ [ev]\<rparr>"
  by (auto simp: call_proc_def)

lemma call_fun_Inr:
  "call_fun ev g s = (Inr v, s1) \<Longrightarrow> s1 = s\<lparr>trace := trace s @ [ev]\<rparr> \<and> g (trace s) = Inr v"
  by (auto simp: call_fun_def)

lemma getitem_Inr:
  "getitem d k s = (Inr v, s1) \<Longrightarrow> s1 = s \<and> map_of d k = Some v"
  by (auto simp: getitem_def raise_def ret_def split: option.splits)

lemma on_train_state_Inr:
  "on_train_state m s = (Inr v, s1) \<Longrightarrow>
     \<exists>ts'. m (train_state s) = (Inr v, ts') \<and> s1 = s\<lparr>train_state := ts'\<rparr>"
  by (auto simp: on_train_state_def split: prod.splits)

lemma new_events_append [simp]:
  "new_events s (s\<lparr>trace := trace s @ evs\<rparr>) = evs"
  by (simp add: new_events_def)

lemma new_events_append_train_state [simp]:
  "new_events s (s\<lparr>trace := trace s @ evs, train_state := ts\<rparr>) = evs"
  by (simp add: new_events_def)

lemma new_events_self [simp]: "new_events s s = []"
  by (simp add: new_events_def)

lemma extends_append [simp]: "extends s (s\<lparr>trace := trace s @ evs\<rparr>)"
  by (simp add: extends_def)

lemma extends_self [simp]: "extends s s"
  by (simp add: extends_def)

lemma extends_trans:
  assumes "extends s s1" and "extends s1 s2"
  shows "extends s s2" and "new_events s s2 = new_events s s1 @ new_events s1 s2"
proof -
  from assms(1) have s1: "s1 = s\<lparr>trace := trace s @ new_events s s1\<rparr>"
    by (simp add: extends_def)
  from assms(2) have s2: "s2 = s1\<lparr>trace := trace s1 @ new_events s1 s2\<rparr>"
    by (simp add: extends_def)
  have eq: "s2 = s\<lparr>trace := trace s @ (new_events s s1 @ new_events s1 s2)\<rparr>"
    by (subst s2, subst (1 2) s1) simp
  show "new_events s s2 = new_events s s1 @ new_events s1 s2"
    by (subst eq) simp
  show "extends s s2"
    by (subst eq) simp
qed

section \<open>The accumulation loop\<close>

lemma observed_losses_append:
  "observed_losses (xs @ ys) = observed_losses xs @ observed_losses ys"
  by (simp add: observed_losses_def List.map_filter_def)

lemma observed_losses_simps:
  "observed_losses [] = []"
  "observed_losses (Backpropagate l n r # tr) =
     (case r of None \<Rightarrow> observed_losses tr | Some v \<Rightarrow> v # observed_losses tr)"
  "\<not> (\<exists>l n r. ev = Backpropagate l n r) \<Longrightarrow> observed_losses (ev # tr) = observed_losses tr"
  by (auto simp: observed_losses_def map_filter_simps split: event.splits option.splits)

lemma microbatch_trace:
  "microbatch env dl tn task n s = (r, s') \<Longrightarrow>
   extends s s'
     \<and> (\<forall>e \<in> set (new_events s s'). microbatch_event e)
     \<and> (\<forall>b v. r = Inr (b, v) \<longrightarrow> observed_losses (new_events s s') = [v])"
  by (auto simp: microbatch_def bnd_if bnd_call_fun bnd_call_backpropagate ret_def
              microbatch_event_def observed_losses_simps
              split: if_splits sum.splits prod.splits)

lemma accumulate_trace:
  "accumulate env dl tn task n k lv s = (r, s') \<Longrightarrow>
   extends s s'
     \<and> (\<forall>e \<in> set (new_events s s'). microbatch_event e)
     \<and> (\<forall>v. r = Inr v \<longrightarrow>
           v = lv + sum_list (observed_losses (new_events s s'))
           \<and> length (observed_losses (new_events s s')) = k)"
proof (induction k arbitrary: lv s)
  case 0
  then show ?case by (auto simp: ret_def observed_losses_simps)
next
  case (Suc k)
  obtain r1 s1 where body: "microbatch env dl tn task n s = (r1, s1)"
    by (cases "microbatch env dl tn task n s")
  note b = microbatch_trace [OF body]
  show ?case
  proof (cases r1)
    case (Inl e)
    with Suc.prems body b show ?thesis by (auto simp: bnd_def)
  next
    case (Inr bv)
    obtain batch l where bv: "bv = (batch, l)" by (cases bv)
    from Suc.prems body Inr bv
    have rest: "accumulate env dl tn task n k (lv + l) s1 = (r, s')"
      by (simp add: bnd_def)
    note ih = Suc.IH [OF rest]
    from b ih have ext: "extends s s'"
      and ev: "new_events s s' = new_events s s1 @ new_events s1 s'"
      by (blast intro: extends_trans)+
    from b Inr bv have ol: "observed_losses (new_events s s1) = [l]" by simp
    from b ih ext show ?thesis
      by (auto simp: ev observed_losses_append ol)
  qed
qed

section \<open>JiantRunner.run_train_step\<close>

lemma write_loss_train_Inr:
  "write_loss_train env tn lv n s = (Inr u, s1) \<Longrightarrow>
     \<exists>k. map_of (task_steps (train_state s)) tn = Some k \<and> n \<noteq> 0
        \<and> s1 = s\<lparr>trace := trace s @
                 [Log_write ''loss_train''
                   \<lparr>entry_task = tn, entry_task_step = k,
                    entry_global_step = global_steps (train_state s),
                    entry_loss_val = lv / real_of_int n\<rparr>]\<rparr>"
  by (auto simp: write_loss_train_def call_proc_def split: option.splits if_splits)

text \<open>
  The shape of a call of \<open>JiantRunner.run_train_step\<close> that returns: the model is put
  in training mode, a task is sampled, the micro-batches are processed, then come one
  scheduler step, one gradient zeroing, the step of the \<open>TrainState\<close> and the log
  record.
\<close>

lemma JiantRunner_run_train_step_shape:
  assumes "JiantRunner_run_train_step env self dl s = (Inr (), s')"
  shows "\<exists>task_name task cfg evs ts' k.
      sampler_result env (trace s @ [Model_train]) = Inr (task_name, task)
    \<and> map_of (task_specific_configs (jiant_task_container self)) task_name = Some cfg
    \<and> gradient_accumulation_steps cfg \<noteq> 0
    \<and> (\<forall>e \<in> set evs. microbatch_event e)
    \<and> length (observed_losses evs) = nat (gradient_accumulation_steps cfg)
    \<and> step task_name (train_state s) = (Inr (), ts')
    \<and> map_of (task_steps ts') task_name = Some k
    \<and> s' = s\<lparr>trace := trace s @ [Model_train, Sampler_pop] @ evs @
                 [Scheduler_step, Optimizer_zero_grad,
                  Log_write ''loss_train''
                    \<lparr>entry_task = task_name, entry_task_step = k,
                     entry_global_step = global_steps ts',
                     entry_loss_val = sum_list (observed_losses evs)
                        / real_of_int (gradient_accumulation_steps cfg)\<rparr>],
             train_state := ts'\<rparr>"
proof -
  note d = assms [unfolded JiantRunner_run_train_step_def]
  from d obtain u1 s1 where a1: "call_proc env Model_train s = (Inr u1, s1)"
    and d1: "bnd (call_fun Sampler_pop (sampler_result env)) (\<lambda>(task_name, task).
     bnd (getitem (task_specific_configs (jiant_task_container self)) task_name)
       (\<lambda>task_specific_config.
     bnd (accumulate env dl task_name task
            (gradient_accumulation_steps task_specific_config)
            (nat (gradient_accumulation_steps task_specific_config)) 0) (\<lambda>loss_val.
     bnd (call_proc env Scheduler_step) (\<lambda>_.
     bnd (call_proc env Optimizer_zero_grad) (\<lambda>_.
     bnd (on_train_state (step task_name)) (\<lambda>_.
     write_loss_train env task_name loss_val
       (gradient_accumulation_steps task_specific_config))))))) s1 = (Inr (), s')"
    by (rule bnd_InrE)
  have s1: "s1 = s\<lparr>trace := trace s @ [Model_train]\<rparr>"
    using a1 by (rule call_proc_Inr)
  from d1 obtain p s2 where a2: "call_fun Sampler_pop (sampler_result env) s1 = (Inr p, s2)"
    and d2: "(\<lambda>(task_name, task).
     bnd (getitem (task_specific_configs (jiant_task_container self)) task_name)
       (\<lambda>task_specific_config.
     bnd (accumulate env dl task_name task
            (gradient_accumulation_steps task_specific_config)
            (nat (gradient_accumulation_steps task_specific_config)) 0) (\<lambda>loss_val.
     bnd (call_proc env Scheduler_step) (\<lambda>_.
     bnd (call_proc env Optimizer_zero_grad) (\<lambda>_.
     bnd (on_train_state (step task_name)) (\<lambda>_.
     write_loss_train env task_name loss_val
       (gradient_accumulation_steps task_specific_config))))))) p s2 = (Inr (), s')"
    by (rule bnd_InrE)
  obtain task_name task where p: "p = (task_name, task)" by (cases p)
  from a2 have s2: "s2 = s\<lparr>trace := trace s @ [Model_train, Sampler_pop]\<rparr>"
    and samp: "sampler_result env (trace s @ [Model_train]) = Inr (task_name, task)"
    by (auto simp: s1 p dest!: call_fun_Inr)
  from d2 [unfolded p] obtain cfg s3 where
    a3: "getitem (task_specific_configs (jiant_task_container self)) task_name s2 = (Inr cfg, s3)"
    and d3: "bnd (accumulate env dl task_name task
            (gradient_accumulation_steps cfg)
            (nat (gradient_accumulation_steps cfg)) 0) (\<lambda>loss_val.
     bnd (call_proc env Scheduler_step) (\<lambda>_.
     bnd (call_proc env Optimizer_zero_grad) (\<lambda>_.
     bnd (on_train_state (step task_name)) (\<lambda>_.
     write_loss_train env task_name loss_val
       (gradient_accumulation_steps cfg))))) s3 = (Inr (), s')"
    by (simp only: prod.case) (erule bnd_InrE)
  from a3 have s3: "s3 = s2"
    and cfg: "map_of (task_specific_configs (jiant_task_container self)) task_name = Some cfg"
    by (auto dest: getitem_Inr)
  let ?n = "gradient_accumulation_steps cfg"
  from d3 obtain loss_val s4 where
    a4: "accumulate env dl task_name task ?n (nat ?n) 0 s3 = (Inr loss_val, s4)"
    and d4: "bnd (call_proc env Scheduler_step) (\<lambda>_.
     bnd (call_proc env Optimizer_zero_grad) (\<lambda>_.
     bnd (on_train_state (step task_name)) (\<lambda>_.
     write_loss_train env task_name loss_val ?n))) s4 = (Inr (), s')"
    by (rule bnd_InrE)
  define evs where "evs = new_events s3 s4"
  from accumulate_trace [OF a4]
  have s4: "s4 = s3\<lparr>trace := trace s3 @ evs\<rparr>"
    and mb: "\<forall>e \<in> set evs. microbatch_event e"
    and lv: "loss_val = sum_list (observed_losses evs)"
    and len: "length (observed_losses evs) = nat ?n"
    by (auto simp: evs_def extends_def)
  from d4 obtain u5 s5 where a5: "call_proc env Scheduler_step s4 = (Inr u5, s5)"
    and d5: "bnd (call_proc env Optimizer_zero_grad) (\<lambda>_.
     bnd (on_train_state (step task_name)) (\<lambda>_.
     write_loss_train env task_name loss_val ?n)) s5 = (Inr (), s')"
    by (rule bnd_InrE)
  from d5 obtain u6 s6 where a6: "call_proc env Optimizer_zero_grad s5 = (Inr u6, s6)"
    and d6: "bnd (on_train_state (step task_name)) (\<lambda>_.
     write_loss_train env task_name loss_val ?n) s6 = (Inr (), s')"
    by (rule bnd_InrE)
  from d6 obtain u7 s7 where a7: "on_train_state (step task_name) s6 = (Inr u7, s7)"
    and d7: "write_loss_train env task_name loss_val ?n s7 = (Inr (), s')"
    by (rule bnd_InrE)
  have s6: "s6 = s\<lparr>trace := trace s @ [Model_train, Sampler_pop] @ evs @
                 [Scheduler_step, Optimizer_zero_grad]\<rparr>"
    using call_proc_Inr [OF a5] call_proc_Inr [OF a6] by (simp add: s4 s3 s2)
  from on_train_state_Inr [OF a7] obtain ts' where
    st: "step task_name (train_state s6) = (Inr u7, ts')" and s7: "s7 = s6\<lparr>train_state := ts'\<rparr>"
    by blast
  from write_loss_train_Inr [OF d7] obtain k where
    k: "map_of (task_steps (train_state s7)) task_name = Some k" and n0: "?n \<noteq> 0"
    and s': "s' = s7\<lparr>trace := trace s7 @
                 [Log_write ''loss_train''
                   \<lparr>entry_task = task_name, entry_task_step = k,
                    entry_global_step = global_steps (train_state s7),
                    entry_loss_val = loss_val / real_of_int ?n\<rparr>]\<rparr>"
    by blast
  have "s' = s\<lparr>trace := trace s @ [Model_train, Sampler_pop] @ evs @
                 [Scheduler_step, Optimizer_zero_grad,
                  Log_write ''loss_train''
                    \<lparr>entry_task = task_name, entry_task_step = k,
                     entry_global_step = global_steps ts',
                     entry_loss_val = sum_list (observed_losses evs) / real_of_int ?n\<rparr>],
             train_state := ts'\<rparr>"
    by (simp add: s' s7 s6 lv)
  moreover have "step task_name (train_state s) = (Inr (), ts')"
    using st by (simp add: s6)
  moreover have "map_of (task_steps ts') task_name = Some k"
    using k by (simp add: s7)
  ultimately show ?thesis
    using samp cfg n0 mb len by blast
qed

lemma ret_run: "ret v s = (Inr v, s)"
  by (simp add: ret_def)

lemma raise_run: "raise e s = (Inl e, s)"
  by (simp add: raise_def)

lemmas run_defs = bnd_def ret_def raise_def call_fun_def call_proc_def call_backpropagate_def
  getitem_def on_train_state_def lift_def

lemmas demo_defs = demo_env_def demo_runner_def demo_container_def demo_state_def

lemma accumulate_numeral:
  "accumulate env dl tn task n (numeral v) lv =
     bnd (microbatch env dl tn task n) (\<lambda>(batch, l).
       accumulate env dl tn task n (pred_numeral v) (lv + l))"
  by (simp add: numeral_eq_Suc)

lemma demo_run:
  "\<exists>s'. JiantRunner_run_train_step demo_env (demo_runner 2) [''rte''] demo_state = (Inr (), s')"
  by (simp add: JiantRunner_run_train_step_def run_defs demo_defs
         microbatch_def step_def from_task_name_list_def
        write_loss_train_def accumulate_numeral)

lemma microbatch_event_not_log: "microbatch_event e \<Longrightarrow> e \<noteq> Log_write k r"
  by (auto simp: microbatch_event_def)

text \<open>
  C5. A call of \<open>JiantRunner.run_train_step\<close> that returns emits exactly one log
  record, as its last call. The record holds the name of the task the sampler returned,
  the counters \<open>task_steps[task]\<close> and \<open>global_steps\<close> of the \<open>TrainState\<close> after
  its \<open>step\<close> for that task, and as \<open>loss_val\<close> the sum of the values
  \<open>complex_backpropagate\<close> returned during the call divided by
  \<open>gradient_accumulation_steps\<close>; for \<open>gradient_accumulation_steps = N \<ge> 1\<close> there
  are exactly \<open>N\<close> such values, so this is their arithmetic mean (in exact arithmetic).
\<close>

theorem run_train_step_log_record:
  assumes "JiantRunner_run_train_step env self train_dataloader_dict s = (Inr (), s')"
  shows "\<exists>task_name task cfg evs k.
      sampler_result env (trace s @ [Model_train]) = Inr (task_name, task)
    \<and> map_of (task_specific_configs (jiant_task_container self)) task_name = Some cfg
    \<and> step task_name (train_state s) = (Inr (), train_state s')
    \<and> map_of (task_steps (train_state s')) task_name = Some k
    \<and> new_events s s' = evs @
         [Log_write ''loss_train''
            \<lparr>entry_task = task_name, entry_task_step = k,
             entry_global_step = global_steps (train_state s'),
             entry_loss_val = sum_list (observed_losses evs)
                / real_of_int (gradient_accumulation_steps cfg)\<rparr>]
    \<and> (\<forall>key entry. Log_write key entry \<notin> set evs)
    \<and> gradient_accumulation_steps cfg \<noteq> 0
    \<and> length (observed_losses evs) = nat (gradient_accumulation_steps cfg)"
proof -
  from JiantRunner_run_train_step_shape [OF assms]
  obtain task_name task cfg evs ts' k where
      samp: "sampler_result env (trace s @ [Model_train]) = Inr (task_name, task)"
    and cfg: "map_of (task_specific_configs (jiant_task_container self)) task_name = Some cfg"
    and n0: "gradient_accumulation_steps cfg \<noteq> 0"
    and mb: "\<forall>e \<in> set evs. microbatch_event e"
    and len: "length (observed_losses evs) = nat (gradient_accumulation_steps cfg)"
    and st: "step task_name (train_state s) = (Inr (), ts')"
    and k: "map_of (task_steps ts') task_name = Some k"
    and s': "s' = s\<lparr>trace := trace s @ [Model_train, Sampler_pop] @ evs @
                 [Scheduler_step, Optimizer_zero_grad,
                  Log_write ''loss_train''
                    \<lparr>entry_task = task_name, entry_task_step = k,
                     entry_global_step = global_steps ts',
                     entry_loss_val = sum_list (observed_losses evs)
                        / real_of_int (gradient_accumulation_steps cfg)\<rparr>],
             train_state := ts'\<rparr>"
    by blast
  let ?evs = "[Model_train, Sampler_pop] @ evs @ [Scheduler_step, Optimizer_zero_grad]"
  have ts: "train_state s' = ts'" by (subst s') simp
  have ol: "observed_losses ?evs = observed_losses evs"
    by (simp add: observed_losses_append observed_losses_simps)
  have ne: "new_events s s' = ?evs @
         [Log_write ''loss_train''
            \<lparr>entry_task = task_name, entry_task_step = k,
             entry_global_step = global_steps (train_state s'),
             entry_loss_val = sum_list (observed_losses ?evs)
                / real_of_int (gradient_accumulation_steps cfg)\<rparr>]"
    unfolding ol ts by (subst s') simp
  have nolog: "\<forall>key entry. Log_write key entry \<notin> set ?evs"
    using mb by (auto dest: microbatch_event_not_log)
  have len': "length (observed_losses ?evs) = nat (gradient_accumulation_steps cfg)"
    using len by (simp only: ol)
  from samp cfg st k ne nolog n0 len' show ?thesis
    unfolding ts [symmetric] by blast
qed

theorem run_train_step_log_record_witness:
  "\<exists>s'. JiantRunner_run_train_step demo_env (demo_runner 2) [''rte''] demo_state = (Inr (), s')
     \<and> (\<exists>task_name task cfg evs k.
      sampler_result demo_env (trace demo_state @ [Model_train]) = Inr (task_name, task)
    \<and> map_of (task_specific_configs (jiant_task_container (demo_runner 2))) task_name = Some cfg
    \<and> step task_name (train_state demo_state) = (Inr (), train_state s')
    \<and> map_of (task_steps (train_state s')) task_name = Some k
    \<and> new_events demo_state s' = evs @
         [Log_write ''loss_train''
            \<lparr>entry_task = task_name, entry_task_step = k,
             entry_global_step = global_steps (train_state s'),
             entry_loss_val = sum_list (observed_losses evs)
                / real_of_int (gradient_accumulation_steps cfg)\<rparr>]
    \<and> (\<forall>key entry. Log_write key entry \<notin> set evs)
    \<and> gradient_accumulation_steps cfg \<noteq> 0
    \<and> length (observed_losses evs) = nat (gradient_accumulation_steps cfg))"
proof -
  from demo_run obtain s' where
    h: "JiantRunner_run_train_step demo_env (demo_runner 2) [''rte''] demo_state = (Inr (), s')"
    by blast
  from run_train_step_log_record [OF h] h show ?thesis by blast
qed

section \<open>Frames, and what the L2TWW runner calls\<close>

lemma frame_self [simp]: "frame s s"
  by (simp add: frame_def)

lemma frame_append [simp]: "frame s (s\<lparr>trace := trace s @ evs\<rparr>)"
  by (simp add: frame_def)

lemma frame_train_state [simp]: "frame s (s\<lparr>train_state := ts\<rparr>)"
  by (simp add: frame_def new_events_def)

lemma new_events_train_state [simp]: "new_events s (s\<lparr>train_state := ts\<rparr>) = []"
  by (simp add: new_events_def)

lemma extends_frame: "extends s s' \<Longrightarrow> frame s s'"
  unfolding extends_def frame_def
  by (metis (no_types, lifting) runner_state.surjective runner_state.update_convs(1)
      runner_state.update_convs(2))

lemma frame_trans:
  assumes "frame s s1" and "frame s1 s2"
  shows "frame s s2" and "new_events s s2 = new_events s s1 @ new_events s1 s2"
proof -
  from assms(1) have s1: "s1 = s\<lparr>trace := trace s @ new_events s s1,
                                  train_state := train_state s1\<rparr>"
    by (simp add: frame_def)
  from assms(2) have s2: "s2 = s1\<lparr>trace := trace s1 @ new_events s1 s2,
                                   train_state := train_state s2\<rparr>"
    by (simp add: frame_def)
  have t1: "trace s1 = trace s @ new_events s s1"
    by (subst s1) simp
  have eq: "s2 = s\<lparr>trace := trace s @ (new_events s s1 @ new_events s1 s2),
                    train_state := train_state s2\<rparr>"
    by (subst s2, subst s1) (simp add: t1)
  have t2: "trace s2 = trace s @ (new_events s s1 @ new_events s1 s2)"
    by (subst eq) simp
  show ne: "new_events s s2 = new_events s s1 @ new_events s1 s2"
    by (simp add: new_events_def [of s s2] t2)
  show "frame s s2"
    unfolding frame_def ne by (rule eq)
qed

lemma emits_ret: "Q [] \<Longrightarrow> emits Q (ret v)"
  by (simp add: emits_def ret_def)

lemma emits_raise: "Q [] \<Longrightarrow> emits Q (raise e)"
  by (simp add: emits_def raise_def)

lemma emits_lift: "Q [] \<Longrightarrow> emits Q (lift x)"
  by (simp add: emits_def lift_def)

lemma emits_getitem: "Q [] \<Longrightarrow> emits Q (getitem d k)"
  by (auto simp: emits_def getitem_def ret_def raise_def split: option.splits)

lemma emits_on_train_state: "Q [] \<Longrightarrow> emits Q (on_train_state m)"
  by (auto simp: emits_def on_train_state_def split: prod.splits)

lemma emits_call_proc: "Q [ev] \<Longrightarrow> emits Q (call_proc env ev)"
  by (auto simp: emits_def call_proc_def)

lemma emits_call_fun: "Q [ev] \<Longrightarrow> emits Q (call_fun ev g)"
  by (auto simp: emits_def call_fun_def)

lemma emits_call_backpropagate:
  "(\<And>r. Q [Backpropagate l n r]) \<Longrightarrow> emits Q (call_backpropagate env l n)"
  by (auto simp: emits_def call_backpropagate_def Let_def)

lemma emits_bnd:
  assumes "append_closed Q" and "emits Q m" and "\<And>v. emits Q (f v)"
  shows "emits Q (bnd m f)"
  unfolding emits_def
proof (intro allI impI)
  fix s r s'
  assume run: "bnd m f s = (r, s')"
  then show "frame s s' \<and> Q (new_events s s')"
  proof (cases rule: bndE)
    case (fail e)
    with assms(2) show ?thesis by (simp add: emits_def)
  next
    case (ok v s1)
    from assms(2) ok(1) have 1: "frame s s1" "Q (new_events s s1)"
      by (auto simp: emits_def)
    from assms(3) ok(2) have 2: "frame s1 s'" "Q (new_events s1 s')"
      by (auto simp: emits_def)
    from frame_trans [OF 1(1) 2(1)] 1(2) 2(2) assms(1) show ?thesis
      by (simp add: append_closed_def)
  qed
qed

lemma emits_if:
  "emits Q m1 \<Longrightarrow> emits Q m2 \<Longrightarrow> emits Q (if c then m1 else m2)"
  by simp

lemma emits_case_prod:
  "(\<And>a b. emits Q (g a b)) \<Longrightarrow> emits Q (case v of (a, b) \<Rightarrow> g a b)"
  by (cases v) simp

lemma emits_backward:
  "Q [] \<Longrightarrow> (\<And>l. Q [Loss_backward l]) \<Longrightarrow> emits Q (backward env x)"
  by (cases x) (auto simp: backward_def intro: emits_raise emits_call_proc)

lemma emits_weaken:
  "emits Q m \<Longrightarrow> (\<And>evs. Q evs \<Longrightarrow> Q' evs) \<Longrightarrow> emits Q' m"
  by (auto simp: emits_def)

lemma emits_raising_first:
  "emits_raising Q m \<Longrightarrow> emits_raising Q (bnd m f)"
  by (fastforce simp: emits_raising_def elim!: bndE)

lemma emits_raising_bnd:
  assumes "append_closed Q" and "emits Q m" and "\<And>v. emits_raising Q (f v)"
  shows "emits_raising Q (bnd m f)"
  unfolding emits_raising_def
proof (intro allI impI)
  fix s r s'
  assume run: "bnd m f s = (r, s')"
  then show "frame s s' \<and> Q (new_events s s') \<and> (\<exists>e. r = Inl e)"
  proof (cases rule: bndE)
    case (fail e)
    with assms(2) show ?thesis by (simp add: emits_def)
  next
    case (ok v s1)
    from assms(2) ok(1) have 1: "frame s s1" "Q (new_events s s1)"
      by (auto simp: emits_def)
    from assms(3) ok(2) have 2: "frame s1 s'" "Q (new_events s1 s')" "\<exists>e. r = Inl e"
      by (auto simp: emits_raising_def)
    from frame_trans [OF 1(1) 2(1)] 1(2) 2 assms(1) show ?thesis
      by (simp add: append_closed_def)
  qed
qed

lemma emits_raising_emits: "emits_raising Q m \<Longrightarrow> emits Q m"
  by (auto simp: emits_raising_def emits_def)

lemma append_closed_list_all [simp]: "append_closed (list_all A)"
  by (simp add: append_closed_def)

lemma append_closed_conj:
  "append_closed P \<Longrightarrow> append_closed Q \<Longrightarrow> append_closed (\<lambda>evs. P evs \<and> Q evs)"
  by (simp add: append_closed_def)

lemmas emits_intros = emits_ret emits_raise emits_lift emits_getitem emits_on_train_state
  emits_call_proc emits_call_fun emits_call_backpropagate emits_if emits_case_prod
  emits_backward

lemma emits_microbatch:
  assumes "\<And>e. microbatch_event e \<Longrightarrow> A e"
  shows "emits (list_all A) (microbatch env dl tn task n)"
  unfolding microbatch_def
  by (intro emits_bnd emits_intros append_closed_list_all)
     (simp_all add: assms microbatch_event_def)

lemma emits_accumulate_meta:
  assumes "\<And>e. microbatch_event e \<Longrightarrow> A e"
  shows "emits (list_all A) (accumulate_meta env dl tn task n k lv mbs)"
proof (induction k arbitrary: lv mbs)
  case 0
  show ?case by (simp add: emits_ret)
next
  case (Suc k)
  show ?case
    by (simp only: accumulate_meta.simps)
       (intro emits_bnd emits_case_prod emits_microbatch append_closed_list_all Suc assms)
qed

lemma inner_step_event_inner_loop_event: "inner_step_event e \<Longrightarrow> inner_loop_event e"
  by (auto simp: inner_step_event_def inner_loop_event_def split: event.splits)

lemma emits_inner_step:
  assumes "\<And>e. inner_step_event e \<Longrightarrow> A e"
  shows "emits (list_all A) (inner_step env wd self batch task)"
  unfolding inner_step_def
  by (intro emits_bnd emits_intros append_closed_list_all)
     (simp_all add: assms inner_step_event_def)

lemma emits_inner_steps_loop:
  assumes "\<And>e. inner_step_event e \<Longrightarrow> A e"
  shows "emits (list_all A) (inner_steps_loop env wd self batch task k)"
proof (induction k)
  case 0
  show ?case by (simp add: emits_ret)
next
  case (Suc k)
  show ?case
    by (simp only: inner_steps_loop.simps)
       (intro emits_bnd emits_inner_step append_closed_list_all Suc assms)
qed

lemma emits_outer_step:
  assumes "\<And>e. inner_loop_event e \<Longrightarrow> A e"
  shows "emits (list_all A) (outer_step env batch task)"
  unfolding outer_step_def outer_objective_def
  by (intro emits_bnd emits_intros append_closed_list_all)
     (simp_all add: assms inner_loop_event_def)

lemma emits_meta_batches_loop:
  assumes "\<And>e. inner_loop_event e \<Longrightarrow> A e"
  shows "emits (list_all A) (meta_batches_loop env wd self task k mbs)"
proof (induction mbs)
  case Nil
  show ?case by (simp add: emits_ret)
next
  case (Cons b mbs)
  have inner: "emits (list_all A) (inner_steps_loop env wd self b task (nat k))"
    by (rule emits_inner_steps_loop) (simp add: assms inner_step_event_inner_loop_event)
  have outer: "emits (list_all A) (outer_step env b task)"
    by (rule emits_outer_step) (rule assms)
  show ?case
    by (simp only: meta_batches_loop.simps)
       (intro emits_bnd append_closed_list_all inner outer Cons)
qed

lemma emits_run_inner_loop:
  assumes "\<And>e. inner_loop_event e \<Longrightarrow> A e"
  shows "emits (list_all A) (L2TWWRunner_run_inner_loop env wd self mbs task k)"
  unfolding L2TWWRunner_run_inner_loop_def
  by (intro emits_bnd emits_meta_batches_loop emits_call_proc append_closed_list_all assms)
     (simp_all add: assms inner_loop_event_def)

lemma emits_write_loss_train:
  assumes "\<And>k e. A (Log_write k e)"
  shows "emits (list_all A) (write_loss_train env tn lv n)"
  using assms
  by (auto simp: emits_def write_loss_train_def call_proc_def split: option.splits if_splits)

lemma emits_L2TWWRunner_run_train_step:
  assumes "\<And>e. train_step_event e \<Longrightarrow> A e"
  shows "emits (list_all A) (L2TWWRunner_run_train_step env wd self dl)"
  unfolding L2TWWRunner_run_train_step_def
  by (intro emits_bnd emits_intros append_closed_list_all emits_accumulate_meta
            emits_run_inner_loop emits_write_loss_train)
     (simp_all add: assms train_step_event_def inner_loop_event_def microbatch_event_def)

lemma frame_teacher_requires_grad:
  assumes "frame s s'"
  shows "teacher_requires_grad s' = teacher_requires_grad s"
proof -
  from assms have "s' = s\<lparr>trace := trace s @ new_events s s',
                            train_state := train_state s'\<rparr>"
    by (simp add: frame_def)
  then have "teacher_requires_grad s' = teacher_requires_grad
      (s\<lparr>trace := trace s @ new_events s s', train_state := train_state s'\<rparr>)"
    by simp
  then show ?thesis by simp
qed

lemma init_loop:
  "k \<le> length flags \<Longrightarrow>
   fold (\<lambda>p fl. fl[p := False]) [0..<k] flags = replicate k False @ drop k flags"
proof (induction k)
  case 0
  then show ?case by simp
next
  case (Suc k)
  then have "fold (\<lambda>p fl. fl[p := False]) [0..<Suc k] flags
        = (replicate k False @ drop k flags)[k := False]"
    by simp
  also have "\<dots> = replicate k False @ (drop k flags)[0 := False]"
    by (simp add: list_update_append)
  also have "(drop k flags)[0 := False] = False # drop (Suc k) flags"
    using Suc.prems by (simp add: Cons_nth_drop_Suc [symmetric])
  finally show ?case by (simp add: replicate_append_same)
qed

lemma teacher_read_only_train_step_event:
  "train_step_event e \<Longrightarrow> teacher_read_only e"
  by (auto simp: train_step_event_def teacher_read_only_def microbatch_event_def
        inner_loop_event_def split: event.splits)

lemma teacher_read_only_inner_loop_event:
  "inner_loop_event e \<Longrightarrow> teacher_read_only e"
  by (auto simp: teacher_read_only_def inner_loop_event_def split: event.splits)

text \<open>
  C9. The constructor of \<open>L2TWWRunner\<close> leaves \<open>requires_grad\<close> false on every
  parameter of the teacher. Every run of \<open>run_train_step\<close> and of
  \<open>run_inner_loop\<close>, returning or raising, leaves these flags as they were, and calls
  the teacher only to put it in evaluation mode and to run it forward inside
  \<open>torch.no_grad()\<close>; the other calls are on the student model, the primary
  optimizer and its scheduler, and the meta optimizer.
\<close>

theorem teacher_stays_frozen:
  "teacher_requires_grad (L2TWWRunner_init s0)
      = replicate (length (teacher_requires_grad s0)) False
   \<and> (L2TWWRunner_run_train_step env wd self dl s = (r, s') \<longrightarrow>
        teacher_requires_grad s' = teacher_requires_grad s
        \<and> list_all teacher_read_only (new_events s s'))
   \<and> (L2TWWRunner_run_inner_loop env wd self meta_batches task inner_steps s = (r, s') \<longrightarrow>
        teacher_requires_grad s' = teacher_requires_grad s
        \<and> list_all teacher_read_only (new_events s s'))"
proof (intro conjI impI)
  show "teacher_requires_grad (L2TWWRunner_init s0)
      = replicate (length (teacher_requires_grad s0)) False"
    by (simp add: L2TWWRunner_init_def init_loop)
next
  assume run: "L2TWWRunner_run_train_step env wd self dl s = (r, s')"
  have "emits (list_all teacher_read_only) (L2TWWRunner_run_train_step env wd self dl)"
    by (rule emits_L2TWWRunner_run_train_step) (rule teacher_read_only_train_step_event)
  with run have "frame s s'" and "list_all teacher_read_only (new_events s s')"
    by (auto simp: emits_def)
  then show "teacher_requires_grad s' = teacher_requires_grad s"
    and "list_all teacher_read_only (new_events s s')"
    by (auto dest: frame_teacher_requires_grad)
next
  assume run: "L2TWWRunner_run_inner_loop env wd self meta_batches task inner_steps s = (r, s')"
  have "emits (list_all teacher_read_only)
          (L2TWWRunner_run_inner_loop env wd self meta_batches task inner_steps)"
    by (rule emits_run_inner_loop) (rule teacher_read_only_inner_loop_event)
  with run have "frame s s'" and "list_all teacher_read_only (new_events s s')"
    by (auto simp: emits_def)
  then show "teacher_requires_grad s' = teacher_requires_grad s"
    and "list_all teacher_read_only (new_events s s')"
    by (auto dest: frame_teacher_requires_grad)
qed

lemma outer_objective_None:
  "outer_objective env batch task s = (Inr v, s1) \<Longrightarrow> v = None"
  by (auto simp: outer_objective_def bnd_call_fun ret_run split: sum.splits)

lemma bnd_outer_objective:
  "bnd (outer_objective env batch task) f s =
     (case forward_result env (trace s) (Forward Student batch task True False) of
        Inl e \<Rightarrow> (Inl e, s\<lparr>trace := trace s @ [Forward Student batch task True False]\<rparr>)
      | Inr v \<Rightarrow> f None (s\<lparr>trace := trace s @ [Forward Student batch task True False]\<rparr>))"
  by (simp add: outer_objective_def bnd_def call_fun_def ret_def split: sum.splits)

lemma outer_step_raises:
  "emits_raising (list_all before_meta_update) (outer_step env batch task)"
  by (auto simp: emits_raising_def outer_step_def bnd_outer_objective backward_def
        bnd_call_proc raise_run before_meta_update_def inner_loop_event_def
        split: option.splits sum.splits)

lemma outer_step_AttributeError:
  assumes "proc_result env (trace s) Meta_zero_grad = None"
    and "proc_result env (trace s @ [Meta_zero_grad]) Optimizer_zero_grad = None"
    and "forward_result env (trace s @ [Meta_zero_grad, Optimizer_zero_grad])
           (Forward Student batch task True False) = Inr out"
  shows "outer_step env batch task s =
           (Inl AttributeError,
            s\<lparr>trace := trace s @ [Meta_zero_grad, Optimizer_zero_grad,
                                   Forward Student batch task True False]\<rparr>)"
  using assms
  by (simp add: outer_step_def bnd_outer_objective backward_def bnd_call_proc raise_run)

lemma before_meta_update_inner_step_event:
  "inner_step_event e \<Longrightarrow> before_meta_update e"
  by (auto simp: before_meta_update_def inner_step_event_def inner_loop_event_def
           split: event.splits)

lemma first_batch_raises:
  "emits_raising (list_all before_meta_update)
     (meta_batches_loop env wd self task k (batch # rest))"
proof -
  have inner: "emits (list_all before_meta_update)
                 (inner_steps_loop env wd self batch task (nat k))"
    by (rule emits_inner_steps_loop) (rule before_meta_update_inner_step_event)
  have outer: "emits_raising (list_all before_meta_update)
                 (bnd (outer_step env batch task)
                    (\<lambda>_. meta_batches_loop env wd self task k rest))"
    by (rule emits_raising_first) (rule outer_step_raises)
  show ?thesis
    by (simp only: meta_batches_loop.simps)
       (rule emits_raising_bnd [OF append_closed_list_all inner outer])
qed

lemma run_inner_loop_raises:
  "emits_raising (list_all before_meta_update)
     (L2TWWRunner_run_inner_loop env wd self (batch # rest) task k)"
  unfolding L2TWWRunner_run_inner_loop_def
  by (rule emits_raising_bnd [OF append_closed_list_all _ first_batch_raises])
     (rule emits_call_proc, simp add: before_meta_update_def inner_loop_event_def)

section \<open>Evaluation: the rank guard and the empty task list\<close>

text \<open>
  C6. Called with \<open>local_rank \<noteq> -1\<close>, the functions \<open>run_val\<close> and \<open>run_test\<close>
  return \<open>None\<close> at once: the state after the call is the state before it, so no
  forward pass and no other call of a collaborator has been made.
\<close>

theorem rank_guard_returns_None:
  assumes "local_rank \<noteq> - 1"
  shows "run_val env val_dataloader val_labels task local_rank return_preds s = (Inr None, s)
       \<and> run_test env test_dataloader task local_rank return_preds s = (Inr None, s)"
  using assms by (simp add: run_val_def run_test_def ret_def)

theorem rank_guard_returns_None_witness:
  "(0::int) \<noteq> - 1
   \<and> run_val demo_env [(Obj 1, Obj 2)] [Obj 3] (Obj 7) 0 True demo_state = (Inr None, demo_state)
   \<and> run_test demo_env [(Obj 1, Obj 2)] (Obj 7) 0 True demo_state = (Inr None, demo_state)"
  using rank_guard_returns_None [of 0 demo_env "[(Obj 1, Obj 2)]" "[Obj 3]" "Obj 7" True demo_state
          "[(Obj 1, Obj 2)]" ]
  by simp

lemma eval_dataloader_loop_trace:
  "eval_dataloader_loop env c phase use_subset names d s = (r, s') \<Longrightarrow>
     extends s s'
     \<and> list_all dataloader_construction (new_events s s')
     \<and> (\<forall>d'. r = Inr d' \<longrightarrow> length (new_events s s') = length names)"
proof (induction names arbitrary: d s)
  case Nil
  then show ?case by (auto simp: ret_def)
next
  case (Cons task_name names)
  let ?ev = "\<lambda>eval_cache task cfg.
      Get_eval_dataloader eval_cache task (eval_batch_size cfg)
               (if use_subset then Some (eval_subset_num cfg) else None)"
  show ?case
  proof (cases "\<exists>task caches eval_cache cfg dl.
           map_of (task_dict c) task_name = Some task
         \<and> map_of (task_cache_dict c) task_name = Some caches
         \<and> map_of caches phase = Some eval_cache
         \<and> map_of (task_specific_configs c) task_name = Some cfg
         \<and> dataloader_result env (trace s) (?ev eval_cache task cfg) = Inr dl")
    case True
    then obtain task caches eval_cache cfg dl where
          "map_of (task_dict c) task_name = Some task"
          "map_of (task_cache_dict c) task_name = Some caches"
          "map_of caches phase = Some eval_cache"
          "map_of (task_specific_configs c) task_name = Some cfg"
          "dataloader_result env (trace s) (?ev eval_cache task cfg) = Inr dl"
      by blast
    with Cons.prems
    have rest: "eval_dataloader_loop env c phase use_subset names
             (AList.update task_name dl d)
             (s\<lparr>trace := trace s @ [?ev eval_cache task cfg]\<rparr>) = (r, s')"
      by (simp add: getitem_def bnd_call_fun)
    let ?s1 = "s\<lparr>trace := trace s @ [?ev eval_cache task cfg]\<rparr>"
    note ih = Cons.IH [OF rest]
    have e1: "extends s ?s1" by simp
    from extends_trans [OF e1] ih
    have "extends s s'" and "new_events s s' = ?ev eval_cache task cfg # new_events ?s1 s'"
      by auto
    with ih show ?thesis
      by (auto simp: dataloader_construction_def)
  next
    case False
    with Cons.prems show ?thesis
      by (auto simp: getitem_def bnd_call_fun dataloader_construction_def
               split: option.splits sum.splits)
  qed
qed

text \<open>
  C7, amended. \<open>JiantRunner.run_val\<close> on the empty task list returns the empty
  mapping and calls no collaborator. \<open>JiantRunner.run_test\<close> on the empty task list
  first builds the evaluation dataloaders of the container's own \<open>test_task_list\<close>:
  the only calls it makes are dataloader constructions (no label cache, no forward
  pass), one for each task of that list when it returns, and what it returns is then
  the empty mapping.
\<close>

theorem empty_task_list_evaluation:
  "JiantRunner_run_val env self [] use_subset return_preds s = (Inr [], s)
   \<and> (JiantRunner_run_test env phase_test self [] s = (r, s') \<longrightarrow>
        extends s s'
        \<and> list_all dataloader_construction (new_events s s')
        \<and> (r = Inr [] \<or> (\<exists>e. r = Inl e))
        \<and> (r = Inr [] \<longrightarrow>
             length (new_events s s') = length (test_task_list (jiant_task_container self))))"
proof (intro conjI impI)
  show "JiantRunner_run_val env self [] use_subset return_preds s = (Inr [], s)"
    by (simp add: JiantRunner_run_val_def get_val_dataloader_dict_def
          get_eval_dataloader_dict_def get_val_labels_dict_def ret_run)
next
  assume run: "JiantRunner_run_test env phase_test self [] s = (r, s')"
  obtain r1 s1 where dl: "get_test_dataloader_dict env phase_test self s = (r1, s1)"
    by (cases "get_test_dataloader_dict env phase_test self s")
  then have loop: "eval_dataloader_loop env (jiant_task_container self) phase_test False
           (test_task_list (jiant_task_container self)) [] s = (r1, s1)"
    by (simp add: get_test_dataloader_dict_def get_eval_dataloader_dict_def)
  note t = eval_dataloader_loop_trace [OF loop]
  from run dl have s1: "s' = s1" and r: "r = (case r1 of Inl e \<Rightarrow> Inl e | Inr d \<Rightarrow> Inr [])"
    by (auto simp: JiantRunner_run_test_def bnd_def ret_def split: sum.splits)
  from t show "extends s s'" by (simp add: s1)
  from t show "list_all dataloader_construction (new_events s s')" by (simp add: s1)
  from r show "r = Inr [] \<or> (\<exists>e. r = Inl e)" by (cases r1) auto
  from t r show "length (new_events s s') = length (test_task_list (jiant_task_container self))"
    if "r = Inr []" using that by (cases r1) (auto simp: s1)
qed

theorem empty_task_list_evaluation_witness:
  "extends demo_state (demo_state\<lparr>trace := [Get_eval_dataloader (Obj 10) (Obj 7) 8 None]\<rparr>)
   \<and> list_all dataloader_construction
        (new_events demo_state
           (demo_state\<lparr>trace := [Get_eval_dataloader (Obj 10) (Obj 7) 8 None]\<rparr>))
   \<and> length (new_events demo_state
           (demo_state\<lparr>trace := [Get_eval_dataloader (Obj 10) (Obj 7) 8 None]\<rparr>))
        = length (test_task_list (jiant_task_container (demo_runner 1)))"
proof -
  have h: "JiantRunner_run_test demo_env ''test'' (demo_runner 1) [] demo_state
     = (Inr [], demo_state\<lparr>trace := [Get_eval_dataloader (Obj 10) (Obj 7) 8 None]\<rparr>)"
    by (simp add: JiantRunner_run_test_def get_test_dataloader_dict_def
        get_eval_dataloader_dict_def run_defs demo_defs)
  from empty_task_list_evaluation [of demo_env "demo_runner 1" False False demo_state
          "''test''" "Inr []"
          "demo_state\<lparr>trace := [Get_eval_dataloader (Obj 10) (Obj 7) 8 None]\<rparr>"] h
  show ?thesis by simp
qed

text \<open>
  C7 as stated fails for \<open>run_test\<close>: with one task in the container's
  \<open>test_task_list\<close>, the call on the empty task list constructs that task's
  dataloader.
\<close>

theorem run_test_empty_builds_dataloaders:
  "JiantRunner_run_test demo_env ''test'' (demo_runner 1) [] demo_state
     = (Inr [], demo_state\<lparr>trace := [Get_eval_dataloader (Obj 10) (Obj 7) 8 None]\<rparr>)"
  by (simp add: JiantRunner_run_test_def get_test_dataloader_dict_def
        get_eval_dataloader_dict_def run_defs demo_defs)

section \<open>Optimizer steps, gradient zeroings and the inner loop\<close>

lemma rows_of_simps:
  "rows_of 0 n xs = []"
  "rows_of (Suc r) n xs = rows_of r n xs @ [take n (drop (r * n) xs)]"
  by (simp_all add: rows_of_def)

lemma rows_of_numeral:
  "rows_of (numeral k) n xs =
     rows_of (pred_numeral k) n xs @ [take n (drop (pred_numeral k * n) xs)]"
  by (simp add: numeral_eq_Suc rows_of_def)

lemmas tensor_defs = linear_apply_def linear_row_def reshape2_def softmax_dim1_def
  softmax_row_def unbind0_def relu_def squeeze_def rows_of_simps rows_of_numeral

lemma demo_what:
  "WhatNetwork_forward (what_network demo_what_where_net) [\<lparr>shape = [1], elems = [0]\<rparr>]
     = Inr [\<lparr>shape = [1], elems = [1]\<rparr>, \<lparr>shape = [1], elems = [1]\<rparr>]"
  by (simp add: WhatNetwork_forward_def demo_what_where_net_def tensor_defs)

lemma demo_where:
  "WhereNetwork_forward (where_network demo_what_where_net) [\<lparr>shape = [1], elems = [0]\<rparr>]
     = Inr [\<lparr>shape = [], elems = [0]\<rparr>, \<lparr>shape = [], elems = [0]\<rparr>]"
  by (simp add: WhereNetwork_forward_def demo_what_where_net_def tensor_defs)

lemma demo_matching:
  "MetaWhatAndWhere_forward demo_weighted_diff demo_what_where_net
     [\<lparr>shape = [1], elems = [0]\<rparr>] [\<lparr>shape = [1], elems = [0]\<rparr>] = Inl AttributeError"
  using demo_what demo_where
  by (simp add: MetaWhatAndWhere_forward_def MetaWhatAndWhere_attributes_def)

lemma MetaWhatAndWhere_forward_raises:
  "\<exists>e. MetaWhatAndWhere_forward weighted_diff self teacher_states student_states = Inl e"
  by (simp add: MetaWhatAndWhere_forward_def MetaWhatAndWhere_attributes_def
           split: sum.splits)

lemma demo_inner_loop_0:
  "L2TWWRunner_run_inner_loop demo_env demo_weighted_diff (demo_l2tww_runner 1)
      [Obj 1] (Obj 7) 0 demo_l2tww_state
   = (Inl AttributeError,
      demo_l2tww_state\<lparr>trace := [Model_eval Teacher, Meta_zero_grad, Optimizer_zero_grad,
                                  Forward Student (Obj 1) (Obj 7) True False]\<rparr>)"
  by (simp add: L2TWWRunner_run_inner_loop_def outer_step_def outer_objective_def
        backward_def run_defs demo_env_def demo_l2tww_state_def)

lemma demo_inner_loop_1:
  "L2TWWRunner_run_inner_loop demo_env demo_weighted_diff (demo_l2tww_runner 1)
      [Obj 1] (Obj 7) 1 demo_l2tww_state
   = (Inl AttributeError,
      demo_l2tww_state\<lparr>trace := [Model_eval Teacher, Optimizer_zero_grad,
                                  Forward Student (Obj 1) (Obj 7) True False,
                                  Forward Teacher (Obj 1) (Obj 7) True True]\<rparr>)"
  using demo_matching
  by (simp add: L2TWWRunner_run_inner_loop_def inner_step_def
        run_defs demo_env_def demo_l2tww_state_def demo_l2tww_runner_def)

lemma emits_bnd_gen:
  assumes "emits P m" and "\<And>v. emits R (f v)"
    and "\<And>a. P a \<Longrightarrow> Q a" and "\<And>a b. P a \<Longrightarrow> R b \<Longrightarrow> Q (a @ b)"
  shows "emits Q (bnd m f)"
  unfolding emits_def
proof (intro allI impI)
  fix s r s'
  assume run: "bnd m f s = (r, s')"
  then show "frame s s' \<and> Q (new_events s s')"
  proof (cases rule: bndE)
    case (fail e)
    with assms(1,3) show ?thesis by (auto simp: emits_def)
  next
    case (ok v s1)
    from assms(1) ok(1) have 1: "frame s s1" "P (new_events s s1)"
      by (auto simp: emits_def)
    from assms(2) ok(2) have 2: "frame s1 s'" "R (new_events s1 s')"
      by (auto simp: emits_def)
    from frame_trans [OF 1(1) 2(1)] assms(4) [OF 1(2) 2(2)] show ?thesis
      by simp
  qed
qed

lemma append_closed_zeroes_before_teacher: "append_closed zeroes_before_teacher"
  by (auto simp: append_closed_def zeroes_before_teacher_def)

lemma bnd_lift:
  "bnd (lift x) f s = (case x of Inl e \<Rightarrow> (Inl e, s) | Inr v \<Rightarrow> f v s)"
  by (simp add: bnd_def lift_def split: sum.splits)

lemma call_proc_run:
  "call_proc env ev s =
     (case proc_result env (trace s) ev of None \<Rightarrow> Inr () | Some e \<Rightarrow> Inl e,
      s\<lparr>trace := trace s @ [ev]\<rparr>)"
  by (simp add: call_proc_def)

lemma emits_zbt_inner_step:
  "emits zeroes_before_teacher (inner_step env wd self batch task)"
  by (auto simp: emits_def inner_step_def bnd_call_proc bnd_call_fun bnd_lift backward_def
        call_proc_run zeroes_before_teacher_def
        split: option.splits sum.splits)

lemma zbt_from_list_all:
  "list_all (\<lambda>e. e \<noteq> Scheduler_step_None \<and> \<not> teacher_forward e) evs
     \<Longrightarrow> zeroes_before_teacher evs"
  by (auto simp: zeroes_before_teacher_def list_all_iff)

lemma emits_zbt_outer_step:
  "emits zeroes_before_teacher (outer_step env batch task)"
proof -
  have "emits (list_all (\<lambda>e. e \<noteq> Scheduler_step_None \<and> \<not> teacher_forward e))
          (outer_step env batch task)"
    unfolding outer_step_def outer_objective_def
    by (intro emits_bnd emits_intros append_closed_list_all)
       (simp_all add: teacher_forward_def)
  then show ?thesis by (rule emits_weaken) (rule zbt_from_list_all)
qed

lemma emits_zbt_inner_steps_loop:
  "emits zeroes_before_teacher (inner_steps_loop env wd self batch task k)"
proof (induction k)
  case 0
  show ?case by (simp add: emits_ret zeroes_before_teacher_def)
next
  case (Suc k)
  show ?case
    by (simp only: inner_steps_loop.simps)
       (intro emits_bnd append_closed_zeroes_before_teacher emits_zbt_inner_step Suc)
qed

lemma emits_zbt_meta_batches_loop:
  "emits zeroes_before_teacher (meta_batches_loop env wd self task k mbs)"
proof (induction mbs)
  case Nil
  show ?case by (simp add: emits_ret zeroes_before_teacher_def)
next
  case (Cons b mbs)
  show ?case
    by (simp only: meta_batches_loop.simps)
       (intro emits_bnd append_closed_zeroes_before_teacher emits_zbt_inner_steps_loop
              emits_zbt_outer_step Cons)
qed

lemma emits_zbt_run_inner_loop:
  "emits zeroes_before_teacher (L2TWWRunner_run_inner_loop env wd self mbs task k)"
  unfolding L2TWWRunner_run_inner_loop_def
  by (intro emits_bnd append_closed_zeroes_before_teacher emits_zbt_meta_batches_loop
            emits_call_proc)
     (simp add: zeroes_before_teacher_def teacher_forward_def)

lemma emits_zbt_write_loss_train:
  "emits zeroes_before_teacher (write_loss_train env tn lv n)"
proof -
  have "emits (list_all (\<lambda>e. e \<noteq> Scheduler_step_None \<and> \<not> teacher_forward e))
          (write_loss_train env tn lv n)"
    by (rule emits_write_loss_train) (simp add: teacher_forward_def)
  then show ?thesis by (rule emits_weaken) (rule zbt_from_list_all)
qed

lemma emits_zbt_tail:
  "emits zeroes_before_teacher
     (bnd (L2TWWRunner_run_inner_loop env wd self mbs task k) (\<lambda>_.
      bnd (on_train_state (step tn)) (\<lambda>_. write_loss_train env tn lv n)))"
  by (intro emits_bnd append_closed_zeroes_before_teacher emits_zbt_run_inner_loop
            emits_on_train_state emits_zbt_write_loss_train)
     (simp add: zeroes_before_teacher_def)

lemma in_set_count_ge1: "x \<in> set xs \<Longrightarrow> 1 \<le> count_list xs x"
  using count_list_0_iff [of xs x] by (cases "count_list xs x") auto

lemma emits_zeroed_twice:
  "emits zeroed_twice
     (bnd (call_proc env Optimizer_zero_grad) (\<lambda>_.
      bnd (L2TWWRunner_run_inner_loop env wd self mbs task k) (\<lambda>_.
      bnd (on_train_state (step tn)) (\<lambda>_. write_loss_train env tn lv n))))"
proof (rule emits_bnd_gen [where P = "\<lambda>a. a = [Optimizer_zero_grad]"
          and R = zeroes_before_teacher])
  show "emits (\<lambda>a. a = [Optimizer_zero_grad]) (call_proc env Optimizer_zero_grad)"
    by (rule emits_call_proc) simp
  show "emits zeroes_before_teacher
     (bnd (L2TWWRunner_run_inner_loop env wd self mbs task k) (\<lambda>_.
      bnd (on_train_state (step tn)) (\<lambda>_. write_loss_train env tn lv n)))" for v :: unit
    by (rule emits_zbt_tail)
  show "zeroed_twice a" if "a = [Optimizer_zero_grad]" for a
    using that by (simp add: zeroed_twice_def teacher_forward_def)
  show "zeroed_twice (a @ b)" if "a = [Optimizer_zero_grad]" and "zeroes_before_teacher b"
    for a b
    using that in_set_count_ge1 [of Optimizer_zero_grad b]
    by (auto simp: zeroed_twice_def zeroes_before_teacher_def teacher_forward_def)
qed

lemma emits_stepped_once:
  "emits stepped_once_zeroed_twice
     (bnd (call_proc env Scheduler_step_None) (\<lambda>_.
      bnd (call_proc env Optimizer_zero_grad) (\<lambda>_.
      bnd (L2TWWRunner_run_inner_loop env wd self mbs task k) (\<lambda>_.
      bnd (on_train_state (step tn)) (\<lambda>_. write_loss_train env tn lv n)))))"
proof (rule emits_bnd_gen [where P = "\<lambda>a. a = [Scheduler_step_None]" and R = zeroed_twice])
  show "emits (\<lambda>a. a = [Scheduler_step_None]) (call_proc env Scheduler_step_None)"
    by (rule emits_call_proc) simp
  show "emits zeroed_twice
     (bnd (call_proc env Optimizer_zero_grad) (\<lambda>_.
      bnd (L2TWWRunner_run_inner_loop env wd self mbs task k) (\<lambda>_.
      bnd (on_train_state (step tn)) (\<lambda>_. write_loss_train env tn lv n))))" for v :: unit
    by (rule emits_zeroed_twice)
  show "stepped_once_zeroed_twice a" if "a = [Scheduler_step_None]" for a
    using that by (simp add: stepped_once_zeroed_twice_def teacher_forward_def)
  show "stepped_once_zeroed_twice (a @ b)" if "a = [Scheduler_step_None]" and "zeroed_twice b"
    for a b
    using that by (auto simp: stepped_once_zeroed_twice_def zeroed_twice_def teacher_forward_def)
qed

lemma emits_after_base:
  assumes "emits (list_all base_event) m" and "\<And>v. emits stepped_once_zeroed_twice (f v)"
  shows "emits stepped_once_zeroed_twice (bnd m f)"
proof (rule emits_bnd_gen [OF assms])
  show "stepped_once_zeroed_twice a" if "list_all base_event a" for a
    using that by (auto simp: stepped_once_zeroed_twice_def base_event_def list_all_iff)
  show "stepped_once_zeroed_twice (a @ b)"
    if "list_all base_event a" and "stepped_once_zeroed_twice b" for a b
    using that
    by (auto simp: stepped_once_zeroed_twice_def base_event_def list_all_iff)
qed

lemma emits_L2TWW_stepped_once_zeroed_twice:
  "emits stepped_once_zeroed_twice (L2TWWRunner_run_train_step env wd self dl)"
  unfolding L2TWWRunner_run_train_step_def
  apply (rule emits_after_base)
   apply (rule emits_call_proc, simp add: base_event_def teacher_forward_def)
  apply (rule emits_after_base)
   apply (rule emits_call_fun, simp add: base_event_def teacher_forward_def)
  apply (rule emits_case_prod)
  apply (rule emits_after_base)
   apply (rule emits_getitem, simp)
  apply (rule emits_after_base)
   apply (rule emits_accumulate_meta)
   apply (auto simp: base_event_def microbatch_event_def teacher_forward_def
                  split: event.splits)[1]
  apply (rule emits_case_prod)
  apply (rule emits_stepped_once)
  done

lemma microbatch_event_counts:
  assumes "\<forall>e \<in> set evs. microbatch_event e"
  shows "Scheduler_step \<notin> set evs" and "Optimizer_zero_grad \<notin> set evs"
    and "Optimizer_step \<notin> set evs" and "Scheduler_step_None \<notin> set evs"
    and "Meta_step \<notin> set evs"
  using assms by (auto simp: microbatch_event_def)

text \<open>
  C2, amended. A call of \<open>JiantRunner.run_train_step\<close> that returns has made exactly
  one optimizer step (\<open>optimizer_scheduler.step()\<close>) and exactly one gradient zeroing,
  whatever \<open>gradient_accumulation_steps\<close> is, and no other optimizer step. The
  override \<open>L2TWWRunner.run_train_step\<close> makes its one scheduler step and one zeroing
  and then enters \<open>run_inner_loop\<close>, where every inner step zeroes the gradients again
  before its forward passes: in any call of the override that gets as far as a forward
  pass of the teacher, the scheduler has been stepped exactly once and the gradients have
  been zeroed at least twice.
\<close>

theorem optimizer_step_and_zero_grad_counts:
  "(JiantRunner_run_train_step env self dl s = (Inr (), s') \<longrightarrow>
      count_list (new_events s s') Scheduler_step = 1
      \<and> count_list (new_events s s') Optimizer_zero_grad = 1
      \<and> Optimizer_step \<notin> set (new_events s s')
      \<and> Scheduler_step_None \<notin> set (new_events s s')
      \<and> Meta_step \<notin> set (new_events s s'))
   \<and> (L2TWWRunner_run_train_step env wd l2 dl t = (r, t')
        \<and> (\<exists>e \<in> set (new_events t t'). teacher_forward e) \<longrightarrow>
      count_list (new_events t t') Scheduler_step_None = 1
      \<and> 2 \<le> count_list (new_events t t') Optimizer_zero_grad)"
proof (intro conjI impI)
  assume run: "JiantRunner_run_train_step env self dl s = (Inr (), s')"
  from JiantRunner_run_train_step_shape [OF run]
  obtain evs entry ts' where mb: "\<forall>e \<in> set evs. microbatch_event e"
    and s': "s' = s\<lparr>trace := trace s @ [Model_train, Sampler_pop] @ evs @
                 [Scheduler_step, Optimizer_zero_grad, Log_write ''loss_train'' entry],
             train_state := ts'\<rparr>"
    by blast
  have ne: "new_events s s' = [Model_train, Sampler_pop] @ evs @
                 [Scheduler_step, Optimizer_zero_grad, Log_write ''loss_train'' entry]"
    by (subst s') simp
  note c = microbatch_event_counts [OF mb]
  show "count_list (new_events s s') Scheduler_step = 1"
    and "count_list (new_events s s') Optimizer_zero_grad = 1"
    and "Optimizer_step \<notin> set (new_events s s')"
    and "Scheduler_step_None \<notin> set (new_events s s')"
    and "Meta_step \<notin> set (new_events s s')"
    using c by (simp_all add: ne)
next
  assume "L2TWWRunner_run_train_step env wd l2 dl t = (r, t')
        \<and> (\<exists>e \<in> set (new_events t t'). teacher_forward e)"
  with emits_L2TWW_stepped_once_zeroed_twice [of env wd l2 dl]
  have "stepped_once_zeroed_twice (new_events t t')"
    and "\<exists>e \<in> set (new_events t t'). teacher_forward e"
    by (auto simp: emits_def)
  then show "count_list (new_events t t') Scheduler_step_None = 1"
    and "2 \<le> count_list (new_events t t') Optimizer_zero_grad"
    by (auto simp: stepped_once_zeroed_twice_def)
qed

lemma demo_l2tww_train_step:
  "L2TWWRunner_run_train_step demo_env demo_weighted_diff (demo_l2tww_runner 1) [''rte'']
      demo_l2tww_state
   = (Inl AttributeError,
      demo_l2tww_state\<lparr>trace :=
        [Model_train, Sampler_pop, Dataloader_pop ''rte'', Batch_to (Obj 2),
         Forward Student (Obj 2) (Obj 7) True False, Backpropagate 4 1 (Some 4),
         Scheduler_step_None, Optimizer_zero_grad, Model_eval Teacher, Optimizer_zero_grad,
         Forward Student (Obj 2) (Obj 7) True False,
         Forward Teacher (Obj 2) (Obj 7) True True]\<rparr>)"
  using demo_matching
  by (simp add: L2TWWRunner_run_train_step_def L2TWWRunner_run_inner_loop_def inner_step_def
        microbatch_def run_defs demo_env_def demo_l2tww_state_def demo_l2tww_runner_def
        demo_container_def from_task_name_list_def)

lemma demo_run_trace:
  "JiantRunner_run_train_step demo_env (demo_runner 2) [''rte''] demo_state
   = (Inr (),
      \<lparr>trace =
        [Model_train, Sampler_pop,
         Dataloader_pop ''rte'', Batch_to (Obj 2),
         Forward Student (Obj 2) (Obj 7) True False, Backpropagate 4 2 (Some 2),
         Dataloader_pop ''rte'', Batch_to (Obj 6),
         Forward Student (Obj 6) (Obj 7) True False, Backpropagate 8 2 (Some 4),
         Scheduler_step, Optimizer_zero_grad,
         Log_write ''loss_train''
           \<lparr>entry_task = ''rte'', entry_task_step = 1, entry_global_step = 1,
            entry_loss_val = 3\<rparr>],
       train_state = \<lparr>global_steps = 1, task_steps = [(''rte'', 1)]\<rparr>\<rparr>)"
  by (simp add: JiantRunner_run_train_step_def run_defs demo_defs
         microbatch_def step_def from_task_name_list_def
        write_loss_train_def accumulate_numeral)

theorem optimizer_step_and_zero_grad_counts_witness:
  "(\<exists>s'. JiantRunner_run_train_step demo_env (demo_runner 2) [''rte''] demo_state = (Inr (), s')
      \<and> count_list (new_events demo_state s') Scheduler_step = 1
      \<and> count_list (new_events demo_state s') Optimizer_zero_grad = 1)
   \<and> (\<exists>r t'. L2TWWRunner_run_train_step demo_env demo_weighted_diff (demo_l2tww_runner 1)
                 [''rte''] demo_l2tww_state = (r, t')
      \<and> (\<exists>e \<in> set (new_events demo_l2tww_state t'). teacher_forward e)
      \<and> count_list (new_events demo_l2tww_state t') Scheduler_step_None = 1
      \<and> 2 \<le> count_list (new_events demo_l2tww_state t') Optimizer_zero_grad)"
proof -
  let ?t' = "demo_l2tww_state\<lparr>trace :=
        [Model_train, Sampler_pop, Dataloader_pop ''rte'', Batch_to (Obj 2),
         Forward Student (Obj 2) (Obj 7) True False, Backpropagate 4 1 (Some 4),
         Scheduler_step_None, Optimizer_zero_grad, Model_eval Teacher, Optimizer_zero_grad,
         Forward Student (Obj 2) (Obj 7) True False,
         Forward Teacher (Obj 2) (Obj 7) True True]\<rparr>"
  from demo_run obtain s' where
    h1: "JiantRunner_run_train_step demo_env (demo_runner 2) [''rte''] demo_state = (Inr (), s')"
    by blast
  have h2: "L2TWWRunner_run_train_step demo_env demo_weighted_diff (demo_l2tww_runner 1)
                 [''rte''] demo_l2tww_state = (Inl AttributeError, ?t')"
    by (rule demo_l2tww_train_step)
  have h3: "\<exists>e \<in> set (new_events demo_l2tww_state ?t'). teacher_forward e"
    by (simp add: new_events_def demo_l2tww_state_def teacher_forward_def)
  note inst = optimizer_step_and_zero_grad_counts
    [where env = demo_env and self = "demo_runner 2" and dl = "[''rte'']"
       and s = demo_state and s' = s' and wd = demo_weighted_diff
       and ?l2.0 = "demo_l2tww_runner 1" and t = demo_l2tww_state
       and r = "Inl AttributeError" and t' = ?t']
  from inst h1 have a: "count_list (new_events demo_state s') Scheduler_step = 1
      \<and> count_list (new_events demo_state s') Optimizer_zero_grad = 1"
    by blast
  from inst h2 h3 have b: "count_list (new_events demo_l2tww_state ?t') Scheduler_step_None = 1
      \<and> 2 \<le> count_list (new_events demo_l2tww_state ?t') Optimizer_zero_grad"
    by blast
  from h1 a h2 h3 b show ?thesis by blast
qed

text \<open>
  C2 as stated fails for the override: with one accumulation step and collaborators that
  never raise, its call zeroes the gradients twice (and then raises inside the inner
  step).
\<close>

theorem l2tww_train_step_zeroes_twice:
  "L2TWWRunner_run_train_step demo_env demo_weighted_diff (demo_l2tww_runner 1) [''rte'']
      demo_l2tww_state
   = (Inl AttributeError,
      demo_l2tww_state\<lparr>trace :=
        [Model_train, Sampler_pop, Dataloader_pop ''rte'', Batch_to (Obj 2),
         Forward Student (Obj 2) (Obj 7) True False, Backpropagate 4 1 (Some 4),
         Scheduler_step_None, Optimizer_zero_grad, Model_eval Teacher, Optimizer_zero_grad,
         Forward Student (Obj 2) (Obj 7) True False,
         Forward Teacher (Obj 2) (Obj 7) True True]\<rparr>)
   \<and> count_list
        [Model_train, Sampler_pop, Dataloader_pop ''rte'', Batch_to (Obj 2),
         Forward Student (Obj 2) (Obj 7) True False, Backpropagate 4 1 (Some 4),
         Scheduler_step_None, Optimizer_zero_grad, Model_eval Teacher, Optimizer_zero_grad,
         Forward Student (Obj 2) (Obj 7) True False,
         Forward Teacher (Obj 2) (Obj 7) True True] Optimizer_zero_grad = 2"
  using demo_l2tww_train_step by simp

lemma demo_init:
  "L2TWWRunner_init demo_l2tww_state
     = \<lparr>trace = [], train_state = from_task_name_list [''rte''],
        teacher_requires_grad = [False, False, False]\<rparr>"
  by (simp add: L2TWWRunner_init_def demo_l2tww_state_def upt_conv_Cons)

lemma demo_frozen_inner_loop:
  "L2TWWRunner_run_inner_loop demo_env demo_weighted_diff (demo_l2tww_runner 1)
      [Obj 1] (Obj 7) 1 (L2TWWRunner_init demo_l2tww_state)
   = (Inl AttributeError,
      \<lparr>trace = [Model_eval Teacher, Optimizer_zero_grad,
                Forward Student (Obj 1) (Obj 7) True False,
                Forward Teacher (Obj 1) (Obj 7) True True],
       train_state = from_task_name_list [''rte''],
       teacher_requires_grad = [False, False, False]\<rparr>)"
  using demo_matching
  by (simp add: demo_init L2TWWRunner_run_inner_loop_def inner_step_def
        run_defs demo_env_def demo_l2tww_runner_def)

lemma demo_frozen_train_step:
  "L2TWWRunner_run_train_step demo_env demo_weighted_diff (demo_l2tww_runner 1) [''rte'']
      (L2TWWRunner_init demo_l2tww_state)
   = (Inl AttributeError,
      \<lparr>trace =
        [Model_train, Sampler_pop, Dataloader_pop ''rte'', Batch_to (Obj 2),
         Forward Student (Obj 2) (Obj 7) True False, Backpropagate 4 1 (Some 4),
         Scheduler_step_None, Optimizer_zero_grad, Model_eval Teacher, Optimizer_zero_grad,
         Forward Student (Obj 2) (Obj 7) True False,
         Forward Teacher (Obj 2) (Obj 7) True True],
       train_state = from_task_name_list [''rte''],
       teacher_requires_grad = [False, False, False]\<rparr>)"
  using demo_matching
  by (simp add: demo_init L2TWWRunner_run_train_step_def L2TWWRunner_run_inner_loop_def
        inner_step_def microbatch_def run_defs demo_env_def demo_l2tww_runner_def
        demo_container_def)


theorem teacher_stays_frozen_witness:
  "teacher_requires_grad (L2TWWRunner_init demo_l2tww_state) = [False, False, False]
   \<and> L2TWWRunner_run_train_step demo_env demo_weighted_diff (demo_l2tww_runner 1) [''rte'']
        (L2TWWRunner_init demo_l2tww_state)
      = (Inl AttributeError,
         \<lparr>trace =
           [Model_train, Sampler_pop, Dataloader_pop ''rte'', Batch_to (Obj 2),
            Forward Student (Obj 2) (Obj 7) True False, Backpropagate 4 1 (Some 4),
            Scheduler_step_None, Optimizer_zero_grad, Model_eval Teacher, Optimizer_zero_grad,
            Forward Student (Obj 2) (Obj 7) True False,
            Forward Teacher (Obj 2) (Obj 7) True True],
          train_state = from_task_name_list [''rte''],
          teacher_requires_grad = [False, False, False]\<rparr>)
   \<and> list_all teacher_read_only
        [Model_train, Sampler_pop, Dataloader_pop ''rte'', Batch_to (Obj 2),
         Forward Student (Obj 2) (Obj 7) True False, Backpropagate 4 1 (Some 4),
         Scheduler_step_None, Optimizer_zero_grad, Model_eval Teacher, Optimizer_zero_grad,
         Forward Student (Obj 2) (Obj 7) True False,
         Forward Teacher (Obj 2) (Obj 7) True True]
   \<and> L2TWWRunner_run_inner_loop demo_env demo_weighted_diff (demo_l2tww_runner 1)
        [Obj 1] (Obj 7) 1 (L2TWWRunner_init demo_l2tww_state)
      = (Inl AttributeError,
         \<lparr>trace = [Model_eval Teacher, Optimizer_zero_grad,
                   Forward Student (Obj 1) (Obj 7) True False,
                   Forward Teacher (Obj 1) (Obj 7) True True],
          train_state = from_task_name_list [''rte''],
          teacher_requires_grad = [False, False, False]\<rparr>)
   \<and> list_all teacher_read_only
        [Model_eval Teacher, Optimizer_zero_grad,
         Forward Student (Obj 1) (Obj 7) True False,
         Forward Teacher (Obj 1) (Obj 7) True True]"
proof -
  let ?s = "L2TWWRunner_init demo_l2tww_state"
  let ?s1 = "\<lparr>trace =
           [Model_train, Sampler_pop, Dataloader_pop ''rte'', Batch_to (Obj 2),
            Forward Student (Obj 2) (Obj 7) True False, Backpropagate 4 1 (Some 4),
            Scheduler_step_None, Optimizer_zero_grad, Model_eval Teacher, Optimizer_zero_grad,
            Forward Student (Obj 2) (Obj 7) True False,
            Forward Teacher (Obj 2) (Obj 7) True True],
          train_state = from_task_name_list [''rte''],
          teacher_requires_grad = [False, False, False]\<rparr>"
  let ?s2 = "\<lparr>trace = [Model_eval Teacher, Optimizer_zero_grad,
                   Forward Student (Obj 1) (Obj 7) True False,
                   Forward Teacher (Obj 1) (Obj 7) True True],
          train_state = from_task_name_list [''rte''],
          teacher_requires_grad = [False, False, False]\<rparr>"
  note h1 = demo_frozen_train_step and h2 = demo_frozen_inner_loop
  have len: "replicate (length (teacher_requires_grad demo_l2tww_state)) False
               = [False, False, False]"
    by (simp add: demo_l2tww_state_def eval_nat_numeral)
  note i1 = teacher_stays_frozen [where ?s0.0 = demo_l2tww_state and env = demo_env
         and wd = demo_weighted_diff and self = "demo_l2tww_runner 1" and dl = "[''rte'']"
         and s = ?s and r = "Inl AttributeError" and s' = ?s1]
  note i2 = teacher_stays_frozen [where ?s0.0 = demo_l2tww_state and env = demo_env
         and wd = demo_weighted_diff and self = "demo_l2tww_runner 1"
         and meta_batches = "[Obj 1]" and task = "Obj 7" and inner_steps = 1
         and s = ?s and r = "Inl AttributeError" and s' = ?s2]
  from i1 len have a: "teacher_requires_grad ?s = [False, False, False]" by simp
  from i1 h1 have b: "list_all teacher_read_only (new_events ?s ?s1)" by blast
  from i2 h2 have c: "list_all teacher_read_only (new_events ?s ?s2)" by blast
  have n1: "new_events ?s ?s1 = trace ?s1" and n2: "new_events ?s ?s2 = trace ?s2"
    by (simp_all add: new_events_def demo_init)
  from a h1 h2 b c show ?thesis
    unfolding n1 n2 by simp
qed

text \<open>
  C10. On a non-empty list of meta-batches \<open>run_inner_loop\<close> never returns: every run
  ends in an exception, and none reaches \<open>meta_backward()\<close> or
  \<open>meta_optimizer.step()\<close>. \<open>outer_objective\<close> returns \<open>None\<close> whenever it
  returns, so when the outer step of a batch is reached and the two gradient zeroings and
  the forward pass of \<open>outer_objective\<close> return normally, the call fails right after
  that forward pass with the \<open>AttributeError\<close> of \<open>None.backward()\<close>.
\<close>

theorem run_inner_loop_fails_at_outer_objective:
  "(L2TWWRunner_run_inner_loop env wd self (batch # rest) task inner_steps s = (r, s') \<longrightarrow>
      (\<exists>e. r = Inl e)
      \<and> Meta_backward \<notin> set (new_events s s') \<and> Meta_step \<notin> set (new_events s s'))
   \<and> (outer_objective env batch task s1 = (Inr v, s2) \<longrightarrow> v = None)
   \<and> (proc_result env (trace s1) Meta_zero_grad = None
        \<and> proc_result env (trace s1 @ [Meta_zero_grad]) Optimizer_zero_grad = None
        \<and> forward_result env (trace s1 @ [Meta_zero_grad, Optimizer_zero_grad])
             (Forward Student batch task True False) = Inr out \<longrightarrow>
      outer_step env batch task s1 =
        (Inl AttributeError,
         s1\<lparr>trace := trace s1 @ [Meta_zero_grad, Optimizer_zero_grad,
                                  Forward Student batch task True False]\<rparr>))"
proof (intro conjI impI)
  assume run: "L2TWWRunner_run_inner_loop env wd self (batch # rest) task inner_steps s = (r, s')"
  with run_inner_loop_raises [of env wd self batch rest task inner_steps]
  have "\<exists>e. r = Inl e" and "list_all before_meta_update (new_events s s')"
    by (auto simp: emits_raising_def)
  then show "\<exists>e. r = Inl e" and "Meta_backward \<notin> set (new_events s s')"
    and "Meta_step \<notin> set (new_events s s')"
    by (auto simp: list_all_iff before_meta_update_def)
next
  assume "outer_objective env batch task s1 = (Inr v, s2)"
  then show "v = None" by (rule outer_objective_None)
next
  assume "proc_result env (trace s1) Meta_zero_grad = None
        \<and> proc_result env (trace s1 @ [Meta_zero_grad]) Optimizer_zero_grad = None
        \<and> forward_result env (trace s1 @ [Meta_zero_grad, Optimizer_zero_grad])
             (Forward Student batch task True False) = Inr out"
  then show "outer_step env batch task s1 =
        (Inl AttributeError,
         s1\<lparr>trace := trace s1 @ [Meta_zero_grad, Optimizer_zero_grad,
                                  Forward Student batch task True False]\<rparr>)"
    by (intro outer_step_AttributeError) auto
qed

theorem run_inner_loop_fails_at_outer_objective_witness:
  "L2TWWRunner_run_inner_loop demo_env demo_weighted_diff (demo_l2tww_runner 1)
      [Obj 1] (Obj 7) 0 demo_l2tww_state
     = (Inl AttributeError,
        demo_l2tww_state\<lparr>trace := [Model_eval Teacher, Meta_zero_grad, Optimizer_zero_grad,
                                    Forward Student (Obj 1) (Obj 7) True False]\<rparr>)
   \<and> Meta_backward \<notin> set (new_events demo_l2tww_state
        (demo_l2tww_state\<lparr>trace := [Model_eval Teacher, Meta_zero_grad, Optimizer_zero_grad,
                                    Forward Student (Obj 1) (Obj 7) True False]\<rparr>))
   \<and> outer_objective demo_env (Obj 1) (Obj 7) demo_l2tww_state
     = (Inr None, demo_l2tww_state\<lparr>trace := [Forward Student (Obj 1) (Obj 7) True False]\<rparr>)
   \<and> outer_step demo_env (Obj 1) (Obj 7) demo_l2tww_state
     = (Inl AttributeError,
        demo_l2tww_state\<lparr>trace := [Meta_zero_grad, Optimizer_zero_grad,
                                    Forward Student (Obj 1) (Obj 7) True False]\<rparr>)"
proof -
  let ?s' = "demo_l2tww_state\<lparr>trace := [Model_eval Teacher, Meta_zero_grad,
               Optimizer_zero_grad, Forward Student (Obj 1) (Obj 7) True False]\<rparr>"
  let ?out = "\<lparr>loss = 2, logits = Obj 0, other0 = [\<lparr>shape = [1], elems = [0]\<rparr>]\<rparr>"
  have h1: "L2TWWRunner_run_inner_loop demo_env demo_weighted_diff (demo_l2tww_runner 1)
      [Obj 1] (Obj 7) 0 demo_l2tww_state = (Inl AttributeError, ?s')"
    by (rule demo_inner_loop_0)
  have h2: "outer_objective demo_env (Obj 1) (Obj 7) demo_l2tww_state
     = (Inr None, demo_l2tww_state\<lparr>trace := [Forward Student (Obj 1) (Obj 7) True False]\<rparr>)"
    by (simp add: outer_objective_def run_defs demo_env_def demo_l2tww_state_def)
  have h3: "proc_result demo_env (trace demo_l2tww_state) Meta_zero_grad = None
        \<and> proc_result demo_env (trace demo_l2tww_state @ [Meta_zero_grad]) Optimizer_zero_grad
            = None
        \<and> forward_result demo_env (trace demo_l2tww_state @ [Meta_zero_grad, Optimizer_zero_grad])
             (Forward Student (Obj 1) (Obj 7) True False) = Inr ?out"
    by (simp add: demo_env_def demo_l2tww_state_def)
  note inst = run_inner_loop_fails_at_outer_objective
    [where env = demo_env and wd = demo_weighted_diff and self = "demo_l2tww_runner 1"
       and batch = "Obj 1" and rest = "[]" and task = "Obj 7" and inner_steps = 0
       and s = demo_l2tww_state and r = "Inl AttributeError" and s' = ?s'
       and ?s1.0 = demo_l2tww_state and v = None
       and ?s2.0 = "demo_l2tww_state\<lparr>trace := [Forward Student (Obj 1) (Obj 7) True False]\<rparr>"
       and out = ?out]
  from inst h1 have a: "Meta_backward \<notin> set (new_events demo_l2tww_state ?s')" by blast
  from inst h3 have b: "outer_step demo_env (Obj 1) (Obj 7) demo_l2tww_state =
        (Inl AttributeError,
         demo_l2tww_state\<lparr>trace := trace demo_l2tww_state @ [Meta_zero_grad, Optimizer_zero_grad,
                                  Forward Student (Obj 1) (Obj 7) True False]\<rparr>)"
    by blast
  have tr: "trace demo_l2tww_state = []" by (simp add: demo_l2tww_state_def)
  from h1 a h2 b show ?thesis by (simp add: tr)
qed

section \<open>The What network and the matching loss\<close>

lemma length_rows_of [simp]: "length (rows_of r n xs) = r"
  by (simp add: rows_of_def)

lemma rows_of_row_length:
  assumes "r * n \<le> length xs" and "row \<in> set (rows_of r n xs)"
  shows "length row = n"
proof -
  from assms(2) obtain i where i: "i < r" and row: "row = take n (drop (i * n) xs)"
    by (auto simp: rows_of_def)
  from i have "Suc i * n \<le> r * n" by (intro mult_le_mono1) simp
  with assms(1) have "i * n + n \<le> length xs" by simp
  then show ?thesis by (simp add: row)
qed

lemma rows_of_Cons:
  assumes "length r = n"
  shows "rows_of (Suc k) n (r @ ys) = r # rows_of k n ys"
proof -
  have "rows_of (Suc k) n (r @ ys)
      = take n (r @ ys) # map (\<lambda>i. take n (drop (Suc i * n) (r @ ys))) [0..<k]"
    by (simp add: rows_of_def upt_conv_Cons map_Suc_upt [symmetric] del: upt_Suc)
  also have "take n (r @ ys) = r" using assms by simp
  also have "map (\<lambda>i. take n (drop (Suc i * n) (r @ ys))) [0..<k]
           = map (\<lambda>i. take n (drop (i * n) ys)) [0..<k]"
    using assms by (simp add: add.commute)
  finally show ?thesis by (simp add: rows_of_def)
qed

lemma rows_of_concat:
  "\<forall>r \<in> set rs. length r = n \<Longrightarrow> rows_of (length rs) n (concat rs) = rs"
proof (induction rs)
  case Nil
  show ?case by (simp add: rows_of_def)
next
  case (Cons r rs)
  then show ?case by (simp add: rows_of_Cons)
qed

lemma sum_list_divide:
  "sum_list (map (\<lambda>x. f x / c) xs) = sum_list (map f xs) / (c::real)"
  by (induction xs) (simp_all add: add_divide_distrib)

lemma sum_list_exp_pos: "xs \<noteq> [] \<Longrightarrow> 0 < sum_list (map exp (xs::real list))"
proof (induction xs)
  case Nil
  then show ?case by simp
next
  case (Cons x xs)
  have "0 \<le> sum_list (map exp xs)" by (rule sum_list_nonneg) auto
  moreover have "0 < exp x" by simp
  ultimately have "0 < exp x + sum_list (map exp xs)" by (rule add_pos_nonneg [rotated])
  then show ?case by simp
qed

lemma softmax_row_sum:
  assumes "xs \<noteq> []"
  shows "sum_list (softmax_row xs) = 1"
  using sum_list_exp_pos [OF assms]
  by (simp add: softmax_row_def sum_list_divide)

lemma length_softmax_row [simp]: "length (softmax_row xs) = length xs"
  by (simp add: softmax_row_def)

lemma What_slots:
  assumes "reshape2 S H out = Inr out2"
    and "unbind0 (softmax_dim1 S H out2) = Inr slots"
    and "0 < H"
  shows "length slots = S \<and> (\<forall>slot \<in> set slots. slot_ok H slot)"
proof -
  from assms(1) have len: "length (elems out2) = S * H" and e2: "elems out2 = elems out"
    by (auto simp: reshape2_def split: if_splits)
  let ?rows = "map softmax_row (rows_of S H (elems out2))"
  have rl: "\<forall>r \<in> set ?rows. length r = H"
    using rows_of_row_length [of S H "elems out2"] len by auto
  have "rows_of (length ?rows) H (concat ?rows) = ?rows"
    using rl by (rule rows_of_concat)
  then have rows: "rows_of S H (concat ?rows) = ?rows" by simp
  from assms(2) have slots: "slots = map (\<lambda>r. \<lparr>shape = [H], elems = r\<rparr>) ?rows"
    by (auto simp: unbind0_def softmax_dim1_def rows)
  have "slot_ok H slot" if "slot \<in> set slots" for slot
  proof -
    from that slots obtain row where row: "row \<in> set (rows_of S H (elems out2))"
      and slot: "slot = \<lparr>shape = [H], elems = softmax_row row\<rparr>"
      by auto
    from rows_of_row_length [OF _ row] len have "length row = H" by simp
    with assms(3) have "row \<noteq> []" by auto
    with \<open>length row = H\<close> show ?thesis
      by (simp add: slot slot_ok_def softmax_row_sum)
  qed
  then show ?thesis by (simp add: slots)
qed

lemma What_loop_slots:
  assumes "What_loop wn ts is acc = Inr outputs" and "0 < what_hidden_size wn"
    and "\<forall>slot \<in> set acc. slot_ok (what_hidden_size wn) slot"
  shows "length outputs = length acc + length is * what_student_num_layers wn
       \<and> (\<forall>slot \<in> set outputs. slot_ok (what_hidden_size wn) slot)"
  using assms
proof (induction "is" arbitrary: acc)
  case Nil
  then show ?case by simp
next
  case (Cons i "is")
  let ?S = "what_student_num_layers wn" and ?H = "what_hidden_size wn"
  from Cons.prems(1) obtain out out2 slots where
    r: "reshape2 ?S ?H out = Inr out2"
    and u: "unbind0 (softmax_dim1 ?S ?H out2) = Inr slots"
    and rest: "What_loop wn ts is (acc @ slots) = Inr outputs"
    by (auto split: if_splits sum.splits)
  from What_slots [OF r u Cons.prems(2)]
  have ls: "length slots = ?S" and ok: "\<forall>slot \<in> set slots. slot_ok ?H slot"
    by auto
  from Cons.prems(3) ok have "\<forall>slot \<in> set (acc @ slots). slot_ok ?H slot" by auto
  from Cons.IH [OF rest Cons.prems(2) this] ls show ?case by simp
qed

lemma length_linear_row [simp]:
  "length (linear_row lin x) = min (length (weight lin)) (length (bias lin))"
  by (simp add: linear_row_def)

lemma What_loop_returns:
  assumes "WhatNetwork_constructed wn"
    and "\<forall>i \<in> set is. i < length ts \<and> i < what_teacher_num_layers wn"
    and "\<forall>t \<in> set ts. single_vector (what_hidden_size wn) t"
  shows "\<exists>outputs. What_loop wn ts is acc = Inr outputs"
  using assms(2)
proof (induction "is" arbitrary: acc)
  case Nil
  show ?case by simp
next
  case (Cons i "is")
  let ?S = "what_student_num_layers wn" and ?H = "what_hidden_size wn"
  let ?lin = "what_network_linear wn ! i" and ?t = "ts ! i"
  from Cons.prems have i: "i < length ts" "i < what_teacher_num_layers wn" by auto
  from assms(1) i(2) have il: "i < length (what_network_linear wn)"
    by (simp add: WhatNetwork_constructed_def)
  with assms(1) have lin: "in_features ?lin = ?H" "length (weight ?lin) = ?S * ?H"
    "length (bias ?lin) = ?S * ?H"
    by (auto simp: WhatNetwork_constructed_def list_all_length)
  from assms(3) i(1) have sv: "single_vector ?H ?t" by simp
  then obtain out where out: "linear_apply ?lin ?t = Inr out"
    and lo: "length (elems out) = ?S * ?H"
    by (auto simp: linear_apply_def single_vector_def lin rows_of_def)
  then obtain out2 where r: "reshape2 ?S ?H out = Inr out2"
    by (auto simp: reshape2_def)
  obtain slots where u: "unbind0 (softmax_dim1 ?S ?H out2) = Inr slots"
    by (auto simp: unbind0_def softmax_dim1_def)
  from Cons.prems have "\<forall>i \<in> set is. i < length ts \<and> i < what_teacher_num_layers wn"
    by simp
  from Cons.IH [OF this, of "acc @ slots"] il out r u show ?case by simp
qed

text \<open>
  C3, amended. The What network reshapes the projection of each teacher layer to
  \<open>(student_num_layers, hidden_size)\<close>, so it takes one vector per teacher layer, not
  a batch. For a network as its constructor builds it and teacher states that each hold
  one vector of the hidden size (at most one state per teacher layer), \<open>forward\<close>
  returns. Whenever it returns and the hidden size is at least 1, its output has
  \<open>student_num_layers\<close> slots for each teacher state, each slot has
  \<open>hidden_size\<close> entries, and the entries of each slot sum to 1 (in exact arithmetic).
\<close>

theorem what_network_slots_sum_to_one:
  "(WhatNetwork_constructed wn
      \<and> length teacher_states \<le> what_teacher_num_layers wn
      \<and> (\<forall>t \<in> set teacher_states. single_vector (what_hidden_size wn) t) \<longrightarrow>
        (\<exists>outputs. WhatNetwork_forward wn teacher_states = Inr outputs))
   \<and> (WhatNetwork_forward wn teacher_states = Inr outputs \<and> 0 < what_hidden_size wn \<longrightarrow>
        length outputs = length teacher_states * what_student_num_layers wn
        \<and> (\<forall>slot \<in> set outputs.
              shape slot = [what_hidden_size wn]
              \<and> length (elems slot) = what_hidden_size wn
              \<and> sum_list (elems slot) = 1))"
proof (intro conjI impI)
  assume a: "WhatNetwork_constructed wn
      \<and> length teacher_states \<le> what_teacher_num_layers wn
      \<and> (\<forall>t \<in> set teacher_states. single_vector (what_hidden_size wn) t)"
  then have "\<forall>i \<in> set [0..<length teacher_states].
               i < length teacher_states \<and> i < what_teacher_num_layers wn"
    by auto
  with a show "\<exists>outputs. WhatNetwork_forward wn teacher_states = Inr outputs"
    unfolding WhatNetwork_forward_def by (intro What_loop_returns) auto
next
  assume b: "WhatNetwork_forward wn teacher_states = Inr outputs \<and> 0 < what_hidden_size wn"
  then have "What_loop wn teacher_states [0..<length teacher_states] [] = Inr outputs"
    by (simp add: WhatNetwork_forward_def)
  from What_loop_slots [OF this] b
  show "length outputs = length teacher_states * what_student_num_layers wn"
    and "\<forall>slot \<in> set outputs.
              shape slot = [what_hidden_size wn]
              \<and> length (elems slot) = what_hidden_size wn
              \<and> sum_list (elems slot) = 1"
    by (auto simp: slot_ok_def)
qed

lemma demo_what_network_forward:
  "WhatNetwork_forward demo_what_network [\<lparr>shape = [1, 2], elems = [0, 0]\<rparr>]
     = Inr [\<lparr>shape = [2], elems = [1 / 2, 1 / 2]\<rparr>, \<lparr>shape = [2], elems = [1 / 2, 1 / 2]\<rparr>]"
  by (simp add: WhatNetwork_forward_def demo_what_network_def linear_apply_def
        linear_row_def reshape2_def softmax_dim1_def softmax_row_def unbind0_def
        rows_of_def upt_conv_Cons)

text \<open>
  C3 as stated fails for a batch: on a teacher state of two vectors the reshape raises,
  and there is no output.
\<close>

theorem what_network_batch_of_two_raises:
  "WhatNetwork_forward demo_what_network [\<lparr>shape = [2, 2], elems = [0, 0, 0, 0]\<rparr>]
     = Inl RuntimeError"
  by (simp add: WhatNetwork_forward_def demo_what_network_def linear_apply_def
        linear_row_def reshape2_def rows_of_def upt_conv_Cons)

theorem what_network_slots_sum_to_one_witness:
  "WhatNetwork_forward demo_what_network [\<lparr>shape = [1, 2], elems = [0, 0]\<rparr>]
     = Inr [\<lparr>shape = [2], elems = [1 / 2, 1 / 2]\<rparr>, \<lparr>shape = [2], elems = [1 / 2, 1 / 2]\<rparr>]
   \<and> (\<exists>outputs. WhatNetwork_forward demo_what_network [\<lparr>shape = [1, 2], elems = [0, 0]\<rparr>]
          = Inr outputs)
   \<and> length [\<lparr>shape = [2], elems = [1 / 2, 1 / 2 :: real]\<rparr>,
              \<lparr>shape = [2], elems = [1 / 2, 1 / 2]\<rparr>] = 1 * 2
   \<and> sum_list (elems \<lparr>shape = [2], elems = [1 / 2, 1 / 2 :: real]\<rparr>) = 1"
proof -
  let ?ts = "[\<lparr>shape = [1, 2], elems = [0, 0 :: real]\<rparr>]"
  let ?outs = "[\<lparr>shape = [2], elems = [1 / 2, 1 / 2 :: real]\<rparr>,
               \<lparr>shape = [2], elems = [1 / 2, 1 / 2]\<rparr>]"
  have h1: "WhatNetwork_constructed demo_what_network
      \<and> length ?ts \<le> what_teacher_num_layers demo_what_network
      \<and> (\<forall>t \<in> set ?ts. single_vector (what_hidden_size demo_what_network) t)"
    by (simp add: WhatNetwork_constructed_def demo_what_network_def single_vector_def)
  have h2: "WhatNetwork_forward demo_what_network ?ts = Inr ?outs
             \<and> 0 < what_hidden_size demo_what_network"
    using demo_what_network_forward by (simp add: demo_what_network_def)
  note inst = what_network_slots_sum_to_one
    [where wn = demo_what_network and teacher_states = ?ts and outputs = ?outs]
  have hs: "what_hidden_size demo_what_network = 2"
    "what_student_num_layers demo_what_network = 2"
    by (simp_all add: demo_what_network_def)
  from inst h1 have a: "\<exists>outputs. WhatNetwork_forward demo_what_network ?ts = Inr outputs"
    by blast
  from inst h2 have b: "length ?outs = length ?ts * what_student_num_layers demo_what_network
        \<and> (\<forall>slot \<in> set ?outs.
              shape slot = [what_hidden_size demo_what_network]
              \<and> length (elems slot) = what_hidden_size demo_what_network
              \<and> sum_list (elems slot) = 1)"
    by blast
  from b have "sum_list (elems \<lparr>shape = [2], elems = [1 / 2, 1 / 2 :: real]\<rparr>) = 1"
    by simp
  with h2 a b show ?thesis unfolding hs by simp
qed

lemma student_loop_last:
  "ns \<noteq> [] \<Longrightarrow> student_loop (\<lambda>m n. Inr (d m n)) m ns diff = Inr (Some (d m (last ns)))"
proof (induction ns arbitrary: diff)
  case Nil
  then show ?case by simp
next
  case (Cons n ns)
  then show ?case by (cases ns) simp_all
qed

lemma student_loop_empty: "student_loop pair_term m [] diff = Inr diff"
  by simp

lemma teacher_loop_last_student:
  assumes "0 < num_student"
  shows "teacher_loop (\<lambda>m n. Inr (d m n)) num_student ms diff matching_loss
           = Inr (matching_loss + sum_list (map (\<lambda>m. d m (num_student - 1)) ms))"
proof (induction ms arbitrary: diff matching_loss)
  case Nil
  show ?case by simp
next
  case (Cons m ms)
  from assms have ne: "[0..<num_student] \<noteq> []" by simp
  from assms have "last [0..<num_student] = num_student - 1"
    by (cases num_student) simp_all
  with student_loop_last [OF ne, of d m diff]
  have "student_loop (\<lambda>m n. Inr (d m n)) m [0..<num_student] diff
          = Inr (Some (d m (num_student - 1)))"
    by simp
  then show ?case by (simp add: Cons.IH add.assoc)
qed

text \<open>
  C1. \<open>MetaWhatAndWhere.forward\<close> is claimed to return the sum, over all pairs of a
  teacher layer and a student layer, of the weighted mean squared difference. On one
  teacher layer and two student layers the call raises \<open>AttributeError\<close> at
  \<open>self.what_where_net\<close> (no run of \<open>forward\<close> returns,
  \<open>MetaWhatAndWhere_forward_raises\<close>); and the loops that follow add to
  \<open>matching_loss\<close> once per teacher layer, after the loop over the student layers, so
  that with the terms 1 and 2 for the two pairs they yield 2, not 3
  (\<open>teacher_loop_last_student\<close>).
\<close>

theorem matching_loss_forward_raises:
  "MetaWhatAndWhere_forward demo_weighted_diff demo_what_where_net
     [\<lparr>shape = [1], elems = [0]\<rparr>]
     [\<lparr>shape = [1], elems = [0]\<rparr>, \<lparr>shape = [1], elems = [0]\<rparr>] = Inl AttributeError
   \<and> teacher_loop (\<lambda>m n. Inr (real (10 * m + n + 1))) 2 [0..<1] None 0 = Inr 2"
proof
  show "MetaWhatAndWhere_forward demo_weighted_diff demo_what_where_net
     [\<lparr>shape = [1], elems = [0]\<rparr>]
     [\<lparr>shape = [1], elems = [0]\<rparr>, \<lparr>shape = [1], elems = [0]\<rparr>] = Inl AttributeError"
    using demo_what demo_where
    by (simp add: MetaWhatAndWhere_forward_def MetaWhatAndWhere_attributes_def)
  show "teacher_loop (\<lambda>m n. Inr (real (10 * m + n + 1))) 2 [0..<1] None 0 = Inr 2"
    by (simp add: upt_conv_Cons)
qed

end
